theory Spec2Isabelle
  imports Main
begin

section \<open>C strings and the character classes of the C locale\<close>

text \<open>
  A C string is modelled by the list of its bytes up to, and without, the terminating
  NUL. Where the source reads the terminator itself (\<^verbatim>\<open>p[1] == '\0'\<close>), the model
  reads the end of the list. A buffer that may hold a NUL byte in the middle (the output
  of \<^verbatim>\<open>decode_hex\<close>) is turned into the string a reader sees with \<open>cstr\<close>.
\<close>

definition NUL :: char where
  "NUL = CHR 0x00"

definition cstr :: "string \<Rightarrow> string" where
  "cstr buf = takeWhile (\<lambda>c. c \<noteq> NUL) buf"

definition isspace :: "char \<Rightarrow> bool" where
  "isspace c = (c = CHR '' '' \<or> c = CHR 0x09 \<or> c = CHR 0x0A \<or> c = CHR 0x0B
                \<or> c = CHR 0x0C \<or> c = CHR 0x0D)"

definition isdigit :: "char \<Rightarrow> bool" where
  "isdigit c = (48 \<le> (of_char c :: nat) \<and> (of_char c :: nat) \<le> 57)"

definition isxdigit :: "char \<Rightarrow> bool" where
  "isxdigit c = (isdigit c \<or> (65 \<le> (of_char c :: nat) \<and> (of_char c :: nat) \<le> 70)
                 \<or> (97 \<le> (of_char c :: nat) \<and> (of_char c :: nat) \<le> 102))"

definition toupper :: "char \<Rightarrow> char" where
  "toupper c = (if 97 \<le> (of_char c :: nat) \<and> (of_char c :: nat) \<le> 122
                then char_of ((of_char c :: nat) - 32) else c)"

definition tolower :: "char \<Rightarrow> char" where
  "tolower c = (if 65 \<le> (of_char c :: nat) \<and> (of_char c :: nat) \<le> 90
                then char_of ((of_char c :: nat) + 32) else c)"

text \<open>\<^verbatim>\<open>strcasecmp(a, b) == 0\<close> and \<^verbatim>\<open>strncasecmp(a, b, n) == 0\<close>.\<close>

definition strcasecmp_eq :: "string \<Rightarrow> string \<Rightarrow> bool" where
  "strcasecmp_eq a b = (map tolower a = map tolower b)"

definition strncasecmp_eq :: "string \<Rightarrow> string \<Rightarrow> nat \<Rightarrow> bool" where
  "strncasecmp_eq a b n = (map tolower (take n a) = map tolower (take n b))"

text \<open>\<^verbatim>\<open>strstr\<close>, as the offset of the first occurrence.\<close>

fun strstr :: "string \<Rightarrow> string \<Rightarrow> nat option" where
  "strstr [] needle = (if needle = [] then Some 0 else None)"
| "strstr (c # cs) needle =
     (if take (length needle) (c # cs) = needle then Some 0
      else map_option Suc (strstr cs needle))"

text \<open>\<^verbatim>\<open>strchr(s, c)\<close> for a byte \<open>c\<close> other than NUL, as the rest of the string
  from the first \<open>c\<close> on.\<close>

definition strchr :: "string \<Rightarrow> char \<Rightarrow> string option" where
  "strchr s c = (if c \<in> set s then Some (dropWhile (\<lambda>x. x \<noteq> c) s) else None)"

text \<open>\<^verbatim>\<open>count_matches\<close> (lines 764-772). The do-while loop also looks at the
  terminator, so NUL is counted once.\<close>

definition count_matches :: "string \<Rightarrow> char \<Rightarrow> nat" where
  "count_matches s1 c = length (filter (\<lambda>x. x = c) s1) + (if c = NUL then 1 else 0)"

subsection \<open>\<^verbatim>\<open>strtol\<close> and \<^verbatim>\<open>strtoull\<close> in base 10\<close>

text \<open>
  Both skip leading white space, read an optional sign and then decimal digits. The
  result is the value (an \<open>int\<close> within the range of the C type), the number of bytes consumed (0 when no digit was read, the case
  \<^verbatim>\<open>endptr == nptr\<close>) and whether \<^verbatim>\<open>errno\<close> is set to \<^verbatim>\<open>ERANGE\<close>.
  \<^verbatim>\<open>long\<close> and \<^verbatim>\<open>unsigned long long\<close> have 64 bits, \<^verbatim>\<open>int\<close> has 32
  (the LP64 data model of the POSIX systems the program is written for).
\<close>

definition digits_val :: "string \<Rightarrow> int" where
  "digits_val ds = foldl (\<lambda>a c. 10 * a + ((of_char c :: int) - 48)) 0 ds"

definition scan_number :: "string \<Rightarrow> nat \<times> bool \<times> string" where
  "scan_number s =
     (let ws = takeWhile isspace s;
          r = dropWhile isspace s;
          sgn = (case r of [] \<Rightarrow> [] | c # _ \<Rightarrow> if c = CHR ''+'' \<or> c = CHR ''-'' then [c] else []);
          ds = takeWhile isdigit (drop (length sgn) r)
      in (if ds = [] then 0 else length ws + length sgn + length ds, sgn = ''-'', ds))"

definition LONG_MAX :: int where
  "LONG_MAX = 2 ^ 63 - 1"

definition LONG_MIN :: int where
  "LONG_MIN = - (2 ^ 63)"

definition ULLONG_MAX :: int where
  "ULLONG_MAX = 2 ^ 64 - 1"

definition strtol :: "string \<Rightarrow> int \<times> nat \<times> bool" where
  "strtol s =
     (case scan_number s of (consumed, neg, ds) \<Rightarrow>
        (let v = (if neg then - digits_val ds else digits_val ds)
         in if v > LONG_MAX then (LONG_MAX, consumed, True)
            else if v < LONG_MIN then (LONG_MIN, consumed, True)
            else (v, consumed, False)))"

definition strtoull :: "string \<Rightarrow> int \<times> nat \<times> bool" where
  "strtoull s =
     (case scan_number s of (consumed, neg, ds) \<Rightarrow>
        (let v = digits_val ds
         in if v > ULLONG_MAX then (ULLONG_MAX, consumed, True)
            else if neg then ((2 ^ 64 - v) mod 2 ^ 64, consumed, False)
            else (v, consumed, False)))"

text \<open>The test \<^verbatim>\<open>tkn == end || *end != '\0' || errno == ERANGE\<close> that follows every
  conversion of a token in the source.\<close>

definition conv_failed :: "string \<Rightarrow> nat \<Rightarrow> bool \<Rightarrow> bool" where
  "conv_failed tkn consumed erange = (consumed = 0 \<or> consumed \<noteq> length tkn \<or> erange)"

text \<open>Conversion of a \<^verbatim>\<open>long\<close> to \<^verbatim>\<open>int\<close>: the low 32 bits, read as two's
  complement.\<close>

definition int_of_long :: "int \<Rightarrow> int" where
  "int_of_long v = (v + 2 ^ 31) mod 2 ^ 32 - 2 ^ 31"

text \<open>\<^verbatim>\<open>str2int\<close> (lines 960-966).\<close>

definition str2int :: "string \<Rightarrow> int" where
  "str2int date =
     (case strtol date of (v, consumed, erange) \<Rightarrow>
        if conv_failed date consumed erange then - 1 else int_of_long v)"

subsection \<open>Trimming and replacing (lines 925-1013)\<close>

definition ltrim :: "string \<Rightarrow> string" where
  "ltrim s = dropWhile isspace s"

definition rtrim :: "string \<Rightarrow> string" where
  "rtrim s = rev (dropWhile isspace (rev s))"

definition trim_str :: "string \<Rightarrow> string" where
  "trim_str s = rtrim (ltrim s)"

definition char_replace :: "string \<Rightarrow> char \<Rightarrow> char \<Rightarrow> string" where
  "char_replace s o' n = map (\<lambda>c. if c = o' then n else c) s"

definition strip_newlines :: "string \<Rightarrow> string" where
  "strip_newlines s = filter (\<lambda>c. c \<noteq> CHR 0x0D \<and> c \<noteq> CHR 0x0A) s"

definition strtoupper :: "string \<Rightarrow> string" where
  "strtoupper s = map toupper s"

section \<open>URL decoding (lines 1173-1210)\<close>

record gconf =
  tz_name :: "string option"
  date_format :: string
  date_num_format :: string
  time_format :: string
  log_format :: string
  append_method :: bool
  append_protocol :: bool
  double_decode :: bool
  no_strict_status :: bool
  no_ip_validation :: bool
  is_json_log_format :: bool

definition B16210 :: "char \<Rightarrow> int" where
  "B16210 x = (if isdigit x then of_char x - 48 else of_char (toupper x) - 65 + 10)"

text \<open>
  \<^verbatim>\<open>decode_hex\<close> copies byte by byte; a \<^verbatim>\<open>%\<close> followed by two hexadecimal
  digits is replaced by the byte they name. The tests on \<^verbatim>\<open>c[1]\<close> and \<^verbatim>\<open>c[2]\<close>
  fail at the terminator, which is what the last two equations say. The result is the
  buffer written, which holds a NUL byte wherever \<^verbatim>\<open>%00\<close> was decoded.
\<close>

fun decode_hex :: "string \<Rightarrow> string" where
  "decode_hex (c # h1 # h2 # rest) =
     (if c \<noteq> CHR ''%'' \<or> \<not> isxdigit h1 \<or> \<not> isxdigit h2
      then c # decode_hex (h1 # h2 # rest)
      else char_of (B16210 h1 * 16 + B16210 h2) # decode_hex rest)"
| "decode_hex (c # cs) = c # decode_hex cs"
| "decode_hex [] = []"

text \<open>
  \<^verbatim>\<open>decode_url\<close> returns NULL for the empty string. The second pass of
  \<^verbatim>\<open>double_decode\<close> runs in place on the output of the first (the write position
  never overtakes the read position), before new lines are stripped and the ends trimmed.
\<close>

definition decode_url :: "gconf \<Rightarrow> string \<Rightarrow> string option" where
  "decode_url conf url =
     (if url = [] then None
      else let out = cstr (decode_hex url);
               out2 = (if double_decode conf then cstr (decode_hex out) else out)
           in Some (trim_str (strip_newlines out2)))"


section \<open>What the parser takes from outside\<close>

record tm =
  tm_sec :: int
  tm_min :: int
  tm_hour :: int
  tm_mday :: int
  tm_mon :: int
  tm_year :: int
  tm_wday :: int
  tm_yday :: int
  tm_isdst :: int
  tm_gmtoff :: int

text \<open>
  The functions of the C library whose results depend on the locale, the time zone
  database or the platform are parameters of the model, as are the two parts of the
  program that the parser only reads from: the event stream of the JSON pull parser
  (\<^verbatim>\<open>json_next\<close>, lines 2368-3100) and the table of JSON keys filled at configuration
  time (\<^verbatim>\<open>ht_get_json_logfmt\<close>). Every theorem below holds for all values of these
  parameters.

  \<^item> \<open>inet_pton4\<close>, \<open>inet_pton6\<close>: \<^verbatim>\<open>inet_pton(AF_INET, s, _) == 1\<close> and the same
    for \<^verbatim>\<open>AF_INET6\<close>.
  \<^item> \<open>strptime s fmt tm\<close>: \<open>None\<close> for NULL, else the unparsed rest and the fields read.
  \<^item> \<open>localtime_r tz t\<close>: the broken-down time of \<open>t\<close> in the zone \<open>tz\<close> that
    \<^verbatim>\<open>set_tz\<close> installed (\<open>None\<close>: the zone of the process).
  \<^item> \<open>strftime max fmt tm\<close>: the text written; empty when \<^verbatim>\<open>strftime\<close> returns 0.
  \<^item> \<open>strtod\<close>, \<open>dbl_pos\<close>, \<open>dbl_mul_u64\<close>: a \<^verbatim>\<open>double\<close> read from a token with a
    decimal point is a value of the type \<open>'d\<close>; \<open>dbl_pos d\<close> is \<^verbatim>\<open>d > 0\<close> and
    \<open>dbl_mul_u64 d k\<close> is \<^verbatim>\<open>(uint64_t)(d * k)\<close>.
  \<^item> \<open>fptoui_overflow\<close>: what the conversion of a \<^verbatim>\<open>double\<close> of at least \<open>2^64\<close> to
    \<^verbatim>\<open>uint64_t\<close> yields (undefined in ISO C).
  \<^item> \<open>json_scalars line\<close>: the (key, value) pairs \<^verbatim>\<open>parse_json_string\<close> passes to its
    callback, in order, and the value it returns when no callback stops it (0, or -1
    after \<^verbatim>\<open>JSON_ERROR\<close>).
\<close>

record 'd env =
  inet_pton4 :: "string \<Rightarrow> bool"
  inet_pton6 :: "string \<Rightarrow> bool"
  strptime :: "string \<Rightarrow> string \<Rightarrow> tm \<Rightarrow> (string \<times> tm) option"
  localtime_r :: "string option \<Rightarrow> int \<Rightarrow> tm"
  timegm :: "tm \<Rightarrow> int"
  strftime :: "nat \<Rightarrow> string \<Rightarrow> tm \<Rightarrow> string"
  strtod :: "string \<Rightarrow> 'd \<times> nat \<times> bool"
  dbl_pos :: "'d \<Rightarrow> bool"
  dbl_mul_u64 :: "'d \<Rightarrow> int \<Rightarrow> int"
  fptoui_overflow :: "int \<Rightarrow> int"
  json_scalars :: "string \<Rightarrow> (string \<times> string) list \<times> int"
  json_logfmt :: "string \<Rightarrow> string option"

section \<open>The log item (lines 120-153, 1081-1125)\<close>

datatype GTypeIP = TYPE_IPINV | TYPE_IPV4 | TYPE_IPV6

record glogitem =
  agent :: "string option"
  date :: "string option"
  host :: "string option"
  keyphrase :: "string option"
  meth :: "string option"
  protocol :: "string option"
  qstr :: "string option"
  ref :: "string option"
  req :: "string option"
  status :: int
  time :: "string option"
  vhost :: "string option"
  userid :: "string option"
  cache_status :: "string option"
  site :: string
  resp_size :: int
  serve_time :: int
  numdate :: int
  ignorelevel :: int
  type_ip :: GTypeIP
  mime_type :: "string option"
  tls_type :: "string option"
  tls_cypher :: "string option"
  tls_type_cypher :: "string option"
  errstr :: "string option"
  dt :: tm

text \<open>The field \<^verbatim>\<open>method\<close> of the source is \<open>meth\<close> here.\<close>

definition init_log_item :: glogitem where
  "init_log_item =
     \<lparr> agent = None, date = None, host = None, keyphrase = None, meth = None,
       protocol = None, qstr = None, ref = None, req = None, status = - 1, time = None,
       vhost = None, userid = None, cache_status = None, site = [], resp_size = 0,
       serve_time = 0, numdate = 0, ignorelevel = 0, type_ip = TYPE_IPINV,
       mime_type = None, tls_type = None, tls_cypher = None, tls_type_cypher = None,
       errstr = None,
       dt = \<lparr> tm_sec = 0, tm_min = 0, tm_hour = 0, tm_mday = 1, tm_mon = 1,
              tm_year = 2000, tm_wday = 0, tm_yday = 0, tm_isdst = - 1, tm_gmtoff = 0 \<rparr> \<rparr>"

section \<open>Validators\<close>

subsection \<open>Status codes (lines 683-735, 916-919)\<close>

definition code_type :: "int \<Rightarrow> string option" where
  "code_type i =
     (if i = 0 then Some ''0xx Unofficial Codes''
      else if i = 1 then Some ''1xx Informational''
      else if i = 2 then Some ''2xx Success''
      else if i = 3 then Some ''3xx Redirection''
      else if i = 4 then Some ''4xx Client Errors''
      else if i = 5 then Some ''5xx Server Errors''
      else None)"

text \<open>
  The array \<^verbatim>\<open>codes[600]\<close>, by index, with the name of the macro each entry holds
  (the descriptions are not read by the parser; only whether an entry is NULL is).
  The designated initialisers put \<^verbatim>\<open>STATUS_CODE_463\<close> and \<^verbatim>\<open>STATUS_CODE_464\<close> at
  the indices 461 and 462, and \<^verbatim>\<open>STATUS_CODE_529\<close> at 528; the model keeps the array
  as the compiler builds it.
\<close>

definition codes_table :: "(int \<times> string) list" where
  "codes_table =
     [(0, ''STATUS_CODE_0''), (100, ''STATUS_CODE_100''), (101, ''STATUS_CODE_101''),
      (200, ''STATUS_CODE_200''), (201, ''STATUS_CODE_201''), (202, ''STATUS_CODE_202''),
      (203, ''STATUS_CODE_203''), (204, ''STATUS_CODE_204''), (205, ''STATUS_CODE_205''),
      (206, ''STATUS_CODE_206''), (207, ''STATUS_CODE_207''), (208, ''STATUS_CODE_208''),
      (218, ''STATUS_CODE_218''), (300, ''STATUS_CODE_300''), (301, ''STATUS_CODE_301''),
      (302, ''STATUS_CODE_302''), (303, ''STATUS_CODE_303''), (304, ''STATUS_CODE_304''),
      (305, ''STATUS_CODE_305''), (307, ''STATUS_CODE_307''), (308, ''STATUS_CODE_308''),
      (400, ''STATUS_CODE_400''), (401, ''STATUS_CODE_401''), (402, ''STATUS_CODE_402''),
      (403, ''STATUS_CODE_403''), (404, ''STATUS_CODE_404''), (405, ''STATUS_CODE_405''),
      (406, ''STATUS_CODE_406''), (407, ''STATUS_CODE_407''), (408, ''STATUS_CODE_408''),
      (409, ''STATUS_CODE_409''), (410, ''STATUS_CODE_410''), (411, ''STATUS_CODE_411''),
      (412, ''STATUS_CODE_412''), (413, ''STATUS_CODE_413''), (414, ''STATUS_CODE_414''),
      (415, ''STATUS_CODE_415''), (416, ''STATUS_CODE_416''), (417, ''STATUS_CODE_417''),
      (418, ''STATUS_CODE_418''), (419, ''STATUS_CODE_419''), (420, ''STATUS_CODE_420''),
      (421, ''STATUS_CODE_421''), (422, ''STATUS_CODE_422''), (423, ''STATUS_CODE_423''),
      (424, ''STATUS_CODE_424''), (426, ''STATUS_CODE_426''), (428, ''STATUS_CODE_428''),
      (429, ''STATUS_CODE_429''), (430, ''STATUS_CODE_430''), (431, ''STATUS_CODE_431''),
      (440, ''STATUS_CODE_440''), (444, ''STATUS_CODE_444''), (449, ''STATUS_CODE_449''),
      (450, ''STATUS_CODE_450''), (451, ''STATUS_CODE_451''), (460, ''STATUS_CODE_460''),
      (461, ''STATUS_CODE_463''), (462, ''STATUS_CODE_464''), (494, ''STATUS_CODE_494''),
      (495, ''STATUS_CODE_495''), (496, ''STATUS_CODE_496''), (497, ''STATUS_CODE_497''),
      (498, ''STATUS_CODE_498''), (499, ''STATUS_CODE_499''), (500, ''STATUS_CODE_500''),
      (501, ''STATUS_CODE_501''), (502, ''STATUS_CODE_502''), (503, ''STATUS_CODE_503''),
      (504, ''STATUS_CODE_504''), (505, ''STATUS_CODE_505''), (509, ''STATUS_CODE_509''),
      (520, ''STATUS_CODE_520''), (521, ''STATUS_CODE_521''), (522, ''STATUS_CODE_522''),
      (523, ''STATUS_CODE_523''), (524, ''STATUS_CODE_524''), (525, ''STATUS_CODE_525''),
      (526, ''STATUS_CODE_526''), (527, ''STATUS_CODE_527''), (528, ''STATUS_CODE_529''),
      (530, ''STATUS_CODE_530''), (540, ''STATUS_CODE_540''), (561, ''STATUS_CODE_561''),
      (598, ''STATUS_CODE_598''), (599, ''STATUS_CODE_599'')]"

definition codes :: "int \<Rightarrow> string option" where
  "codes i = map_of codes_table i"

text \<open>C's \<^verbatim>\<open>/\<close> truncates; the division is only reached for \<open>0 \<le> code\<close>, where it is
  \<open>div\<close>.\<close>

definition is_valid_http_status :: "int \<Rightarrow> bool" where
  "is_valid_http_status code =
     (code \<ge> 0 \<and> code \<le> 599 \<and> code_type (code div 100) \<noteq> None \<and> codes code \<noteq> None)"

subsection \<open>IP addresses (lines 893-914)\<close>

text \<open>The result is the value returned (\<open>True\<close> for 1, invalid) and the type written
  through \<^verbatim>\<open>ipvx\<close>.\<close>

definition invalid_ipaddr :: "'d env \<Rightarrow> string \<Rightarrow> bool \<times> GTypeIP" where
  "invalid_ipaddr ev s =
     (if s = [] then (True, TYPE_IPINV)
      else if inet_pton4 ev s then (False, TYPE_IPV4)
      else if inet_pton6 ev s then (False, TYPE_IPV6)
      else (True, TYPE_IPINV))"

subsection \<open>Methods, protocols, cache status (lines 1317-1404)\<close>

definition http_methods :: "string list" where
  "http_methods =
     [''OPTIONS'', ''GET'', ''HEAD'', ''POST'', ''PUT'', ''DELETE'', ''TRACE'', ''CONNECT'',
      ''PATCH'', ''SEARCH'', ''PROPFIND'', ''PROPPATCH'', ''MKCOL'', ''COPY'', ''MOVE'',
      ''LOCK'', ''UNLOCK'', ''VERSION-CONTROL'', ''REPORT'', ''CHECKOUT'', ''CHECKIN'',
      ''UNCHECKOUT'', ''MKWORKSPACE'', ''UPDATE'', ''LABEL'', ''MERGE'',
      ''BASELINE-CONTROL'', ''MKACTIVITY'', ''ORDERPATCH'']"

definition http_protocols :: "string list" where
  "http_protocols = [''HTTP/1.0'', ''HTTP/1.1'', ''HTTP/2'', ''HTTP/3'']"

text \<open>Each entry of the source's tables carries the length of its string; the loops
  compare that many bytes with \<^verbatim>\<open>strncasecmp\<close> and return the first entry that
  matches.\<close>

definition extract_method :: "string \<Rightarrow> string option" where
  "extract_method token = find (\<lambda>m. strncasecmp_eq token m (length m)) http_methods"

definition extract_protocol :: "string \<Rightarrow> string option" where
  "extract_protocol token = find (\<lambda>m. strncasecmp_eq token m (length m)) http_protocols"

definition is_cache_hit :: "string \<Rightarrow> bool" where
  "is_cache_hit tkn =
     (strcasecmp_eq ''MISS'' tkn \<or> strcasecmp_eq ''BYPASS'' tkn \<or> strcasecmp_eq ''EXPIRED'' tkn
      \<or> strcasecmp_eq ''STALE'' tkn \<or> strcasecmp_eq ''UPDATING'' tkn
      \<or> strcasecmp_eq ''REVALIDATED'' tkn \<or> strcasecmp_eq ''HIT'' tkn)"

section \<open>Dates and times (lines 774-877, 1545-1569, 1608-1625)\<close>

definition MILS :: int where
  "MILS = 1000"

definition SECS :: int where
  "SECS = 1000000"

definition DATE_LEN :: nat where
  "DATE_LEN = 10 + 1"

definition TIME_LEN :: nat where
  "TIME_LEN = 8 + 1"

definition tm2time :: "'d env \<Rightarrow> tm \<Rightarrow> int" where
  "tm2time ev src = timegm ev src - tm_gmtoff src"

text \<open>
  \<^verbatim>\<open>str_to_time\<close> returns 0 or 1 and writes the broken-down time through \<^verbatim>\<open>tm\<close>.
  Every call in the program passes \<^verbatim>\<open>tz = 1\<close>, so whenever \<^verbatim>\<open>conf.tz_name\<close> is set
  \<^verbatim>\<open>set_tz\<close> has installed it before \<^verbatim>\<open>localtime_r\<close> runs.
\<close>

definition str_to_time :: "'d env \<Rightarrow> gconf \<Rightarrow> string \<Rightarrow> string \<Rightarrow> tm \<Rightarrow> bool \<Rightarrow> int \<times> tm" where
  "str_to_time ev conf s fmt tm tz =
     (if s = [] \<or> fmt = [] then (1, tm)
      else let us = (fmt = ''%f''); ms = (fmt = ''%*'') in
        if us \<or> ms then
          (case strtoull s of (ts, consumed, erange) \<Rightarrow>
             if conv_failed s consumed erange then (1, tm)
             else let seconds = (if us then ts div SECS else if ms then ts div MILS else ts)
                  in (0, localtime_r ev (if tz then tz_name conf else None) seconds))
        else
          (case strptime ev s fmt tm of
             None \<Rightarrow> (1, tm)
           | Some (rest, tm') \<Rightarrow>
               if rest \<noteq> [] then (1, tm')
               else if \<not> tz \<or> tz_name conf = None then (0, tm')
               else let t = tm2time ev tm' in
                 if t = - 1 then (0, tm')
                 else (0, localtime_r ev (tz_name conf) t)))"

text \<open>\<^verbatim>\<open>set_date\<close> and \<^verbatim>\<open>set_time\<close>: \<open>None\<close> when they return 1, else the string
  assigned.\<close>

definition set_date :: "'d env \<Rightarrow> gconf \<Rightarrow> tm \<Rightarrow> string option" where
  "set_date ev conf tm =
     (let buf = strftime ev DATE_LEN (date_num_format conf) tm
      in if length buf \<le> 0 then None else Some buf)"

definition set_time :: "'d env \<Rightarrow> tm \<Rightarrow> string option" where
  "set_time ev tm =
     (let buf = strftime ev TIME_LEN ''%H:%M:%S'' tm
      in if length buf \<le> 0 then None else Some buf)"

definition set_tm_dt_logitem :: "glogitem \<Rightarrow> tm \<Rightarrow> glogitem" where
  "set_tm_dt_logitem logitem tm =
     logitem\<lparr>dt := (dt logitem)\<lparr>tm_year := tm_year tm, tm_mon := tm_mon tm, tm_mday := tm_mday tm\<rparr>\<rparr>"

definition set_tm_tm_logitem :: "glogitem \<Rightarrow> tm \<Rightarrow> glogitem" where
  "set_tm_tm_logitem logitem tm =
     logitem\<lparr>dt := (dt logitem)\<lparr>tm_hour := tm_hour tm, tm_min := tm_min tm, tm_sec := tm_sec tm\<rparr>\<rparr>"

text \<open>\<^verbatim>\<open>set_numeric_date\<close> ends the process (\<^verbatim>\<open>FATAL\<close>) when \<^verbatim>\<open>str2int\<close> returns
  -1: the result \<open>None\<close>. Otherwise the \<^verbatim>\<open>int\<close> is stored in a \<^verbatim>\<open>uint32_t\<close>.\<close>

definition set_numeric_date :: "string \<Rightarrow> int option" where
  "set_numeric_date d =
     (let res = str2int d in if res = - 1 then None else Some (res mod 2 ^ 32))"

section \<open>Errors of a specifier (lines 78-81, 1576-1606)\<close>

definition ERR_SPEC_TOKN_NUL :: int where
  "ERR_SPEC_TOKN_NUL = 1"

definition ERR_SPEC_TOKN_INV :: int where
  "ERR_SPEC_TOKN_INV = 2"

definition ERR_SPEC_SFMT_MIS :: int where
  "ERR_SPEC_SFMT_MIS = 3"

definition ERR_SPEC_LINE_INV :: int where
  "ERR_SPEC_LINE_INV = 4"

definition sq :: string where
  "sq = [CHR 0x27]"

text \<open>The message \<^verbatim>\<open>spec_err\<close> formats for a code, a specifier and a token (NULL is
  printed as \<^verbatim>\<open>-\<close>); for any other code it stores NULL.\<close>

definition spec_err_msg :: "int \<Rightarrow> char \<Rightarrow> string option \<Rightarrow> string option" where
  "spec_err_msg code spec tkn =
     (let t = (case tkn of None \<Rightarrow> ''-'' | Some s \<Rightarrow> s) in
      if code = ERR_SPEC_TOKN_NUL
        then Some (''Token for '' @ sq @ ''%'' @ [spec] @ sq @ '' specifier is NULL.'')
      else if code = ERR_SPEC_TOKN_INV
        then Some (''Token '' @ sq @ t @ sq @ '' doesn'' @ sq @ ''t match specifier '' @ sq @ ''%''
                   @ [spec] @ sq)
      else if code = ERR_SPEC_SFMT_MIS
        then Some (''Missing braces '' @ sq @ t @ sq @ '' and ignore chars for specifier '' @ sq
                   @ ''%'' @ [spec] @ sq)
      else if code = ERR_SPEC_LINE_INV
        then Some (''Incompatible format due to early parsed line ending '' @ sq
                   @ [CHR 0x5C, CHR ''0''] @ sq @ ''.'')
      else None)"

definition spec_err :: "glogitem \<Rightarrow> int \<Rightarrow> char \<Rightarrow> string option \<Rightarrow> int \<times> glogitem" where
  "spec_err logitem code spec tkn = (code, logitem\<lparr>errstr := spec_err_msg code spec tkn\<rparr>)"

section \<open>Referrers and requests (lines 1218-1305, 1411-1452)\<close>

text \<open>
  \<^verbatim>\<open>extract_keyphrase\<close> writes a NUL into its argument where the query ends, so the
  caller's token is cut there: the result is the value returned, the token as it is
  afterwards, and the key phrase assigned (if any).
\<close>

definition google_hosts :: "string list" where
  "google_hosts =
     [''http://www.google.'', ''http://webcache.googleusercontent.com/'',
      ''http://translate.googleusercontent.com/'', ''https://www.google.'',
      ''https://webcache.googleusercontent.com/'',
      ''https://translate.googleusercontent.com/'']"

definition keyphrase_start :: "string \<Rightarrow> (nat \<times> bool) option" where
  "keyphrase_start r =
     (case strstr r ''/+'' of
        Some i \<Rightarrow> Some (i + 2, False)
      | None \<Rightarrow>
     (case strstr r ''q=cache:'' of
        Some i \<Rightarrow>
          (case strchr (drop i r) (CHR ''+'') of
             Some pch \<Rightarrow> Some (length r - length pch + 1, False)
           | None \<Rightarrow> Some (i, False))
      | None \<Rightarrow>
     (case strstr r ''&q='' of
        Some i \<Rightarrow> Some (i + 3, False)
      | None \<Rightarrow>
     (case strstr r ''?q='' of
        Some i \<Rightarrow> Some (i + 3, False)
      | None \<Rightarrow>
     (case strstr r ''%26q%3D'' of
        Some i \<Rightarrow> Some (i + 7, True)
      | None \<Rightarrow>
     (case strstr r ''%3Fq%3D'' of
        Some i \<Rightarrow> Some (i + 7, True)
      | None \<Rightarrow> None))))))"

definition extract_keyphrase :: "gconf \<Rightarrow> string \<Rightarrow> int \<times> string \<times> string option" where
  "extract_keyphrase conf r =
     (if list_all (\<lambda>h. strstr r h = None) google_hosts then (1, r, None)
      else if strstr r ''/+&'' \<noteq> None then (1, r, None)
      else case keyphrase_start r of
        None \<Rightarrow> (1, r, None)
      | Some (i, encoded) \<Rightarrow>
          (let q = drop i r;
               cut = (if \<not> encoded \<and> CHR ''&'' \<in> set q then takeWhile (\<lambda>c. c \<noteq> CHR ''&'') q
                      else if encoded then (case strstr q ''%26'' of Some j \<Rightarrow> take j q | None \<Rightarrow> q)
                      else q);
               r' = take i r @ cut
           in case decode_url conf cut of
                None \<Rightarrow> (1, r', None)
              | Some referer \<Rightarrow>
                  if referer = [] then (1, r', None)
                  else (0, r', Some (trim_str (char_replace referer (CHR ''+'') (CHR '' ''))))))"

definition REF_SITE_LEN :: nat where
  "REF_SITE_LEN = 511"

text \<open>\<^verbatim>\<open>extract_referer_site\<close>: \<open>None\<close> when it returns 1 and leaves \<^verbatim>\<open>host\<close>
  alone, else the host part copied.\<close>

definition extract_referer_site :: "string \<Rightarrow> string option" where
  "extract_referer_site referer =
     (if referer = [] then None
      else case strstr referer ''//'' of
        None \<Rightarrow> None
      | Some i \<Rightarrow>
          (let begin' = drop (i + 2) referer in
           if length begin' = 0 then None
           else let len = length (takeWhile (\<lambda>c. c \<noteq> CHR ''/'' \<and> c \<noteq> CHR ''?'') begin') in
             if len = 0 then None
             else Some (take (if len \<ge> REF_SITE_LEN then REF_SITE_LEN else len) begin')))"

text \<open>\<^verbatim>\<open>strrchr(s, ' ')\<close> as the offset of the last blank.\<close>

definition strrchr_sp :: "string \<Rightarrow> nat option" where
  "strrchr_sp s =
     (if CHR '' '' \<in> set s then Some (length s - 1 - length (takeWhile (\<lambda>c. c \<noteq> CHR '' '') (rev s)))
      else None)"

text \<open>
  \<^verbatim>\<open>parse_req\<close>: the request it returns and the method and protocol as they are
  afterwards (they are written only on the path that finds both).
\<close>

definition parse_req ::
  "gconf \<Rightarrow> string \<Rightarrow> string option \<Rightarrow> string option \<Rightarrow> string \<times> string option \<times> string option" where
  "parse_req conf line method0 protocol0 =
     (let finish = (\<lambda>request m p.
            case decode_url conf request of
              None \<Rightarrow> (request, m, p)
            | Some dreq \<Rightarrow> if dreq = [] then (request, m, p) else (dreq, m, p))
      in case extract_method line of
        None \<Rightarrow> finish line method0 protocol0
      | Some mt \<Rightarrow>
          (let rq = drop (length mt) line in
           case strrchr_sp rq of
             None \<Rightarrow> (''-'', method0, protocol0)
           | Some k \<Rightarrow>
               (case extract_protocol (drop (k + 1) rq) of
                  None \<Rightarrow> (''-'', method0, protocol0)
                | Some proto \<Rightarrow>
                    if int (k + 1) - 1 \<le> 0 then (''-'', method0, protocol0)
                    else finish (take k (drop 1 rq))
                           (if append_method conf then Some (strtoupper mt) else method0)
                           (if append_protocol conf then Some (strtoupper proto) else protocol0))))"

section \<open>Extracting a token (lines 1459-1538, 1627-1632)\<close>

definition get_delim :: "string \<Rightarrow> string" where
  "get_delim p = (case p of c # d # _ \<Rightarrow> [d] | _ \<Rightarrow> [])"

text \<open>
  The loop of \<^verbatim>\<open>parse_string\<close>, with the bytes passed so far in \<open>pre\<close>. It ends at the
  \<open>cnt\<close>-th byte equal to \<open>end'\<close> or at the terminator, where \<^verbatim>\<open>parsed_string\<close>
  copies and trims the bytes passed and moves the cursor there; a backslash skips the
  next byte, and the loop gives NULL when that byte is the terminator.
\<close>

fun parse_string_loop :: "char \<Rightarrow> nat \<Rightarrow> nat \<Rightarrow> string \<Rightarrow> string \<Rightarrow> (string \<times> string) option" where
  "parse_string_loop end' cnt idx pre [] = Some (trim_str pre, [])"
| "parse_string_loop end' cnt idx pre (c # cs) =
     (let idx' = (if c = end' then idx + 1 else idx) in
      if (c = end' \<and> cnt = idx') \<or> c = NUL then Some (trim_str pre, c # cs)
      else if c = CHR 0x5C then
        (case cs of
           [] \<Rightarrow> None
         | x # cs' \<Rightarrow> parse_string_loop end' cnt idx' (pre @ [c, x]) cs')
      else parse_string_loop end' cnt idx' (pre @ [c]) cs)"

text \<open>\<^verbatim>\<open>parse_string\<close>: \<open>None\<close> for NULL, else the token and the cursor after it.\<close>

definition parse_string :: "string \<Rightarrow> string \<Rightarrow> nat \<Rightarrow> (string \<times> string) option" where
  "parse_string str delims cnt =
     (case (if delims = [] then Some NUL else find (\<lambda>c. c \<in> set delims) str) of
        None \<Rightarrow> None
      | Some end' \<Rightarrow> parse_string_loop end' cnt 0 [] str)"

definition find_alpha :: "string \<Rightarrow> string" where
  "find_alpha str = dropWhile isspace str"

definition find_alpha_count :: "string \<Rightarrow> nat" where
  "find_alpha_count str = length (takeWhile isspace str)"

text \<open>
  \<^verbatim>\<open>handle_default_case_token\<close> always returns 0; the result is the cursor. \<open>p\<close> is the
  template from the specifier letter on, so \<^verbatim>\<open>p[1]\<close> is its second byte, or the
  terminator, which \<^verbatim>\<open>strchr\<close> finds at the end of the input.
\<close>

definition handle_default_case_token :: "string \<Rightarrow> string \<Rightarrow> string" where
  "handle_default_case_token str p =
     (case p of
        c # d # _ \<Rightarrow> (case strchr str d of Some pch \<Rightarrow> pch | None \<Rightarrow> str)
      | _ \<Rightarrow> [])"

section \<open>Time served: the arithmetic on \<^verbatim>\<open>double\<close>\<close>

text \<open>
  \<^verbatim>\<open>%L\<close> and \<^verbatim>\<open>%T\<close> keep the number read in a \<^verbatim>\<open>double\<close>. A \<^verbatim>\<open>double\<close> converted
  from an unsigned integer is the integer rounded to 53 significant bits, to nearest and
  ties to even (IEEE 754 binary64); it is modelled exactly. A \<^verbatim>\<open>double\<close> read by
  \<^verbatim>\<open>strtod\<close> is a value of the C library.
\<close>

function bitlen :: "int \<Rightarrow> nat" where
  "bitlen n = (if n \<le> 0 then 0 else Suc (bitlen (n div 2)))"
  by pat_completeness auto
termination
  by (relation "measure nat") auto

declare bitlen.simps [simp del]

definition round53 :: "int \<Rightarrow> int" where
  "round53 n =
     (let e = bitlen n in
      if e \<le> 53 then n
      else let sh = e - 53; q = n div 2 ^ sh; r = n mod 2 ^ sh; half = 2 ^ (sh - 1) in
        if r > half \<or> (r = half \<and> odd q) then (q + 1) * 2 ^ sh else q * 2 ^ sh)"

datatype 'd cdouble = DExact int | DLib 'd

definition dbl_gt0 :: "'d env \<Rightarrow> 'd cdouble \<Rightarrow> bool" where
  "dbl_gt0 ev x = (case x of DExact n \<Rightarrow> n > 0 | DLib d \<Rightarrow> dbl_pos ev d)"

definition double_to_u64 :: "'d env \<Rightarrow> int \<Rightarrow> int" where
  "double_to_u64 ev n = (if n < 2 ^ 64 then n else fptoui_overflow ev n mod 2 ^ 64)"

text \<open>\<^verbatim>\<open>(uint64_t)(x * k)\<close> for one of the constants \<^verbatim>\<open>MILS\<close> and \<^verbatim>\<open>SECS\<close>, which a
  \<^verbatim>\<open>double\<close> holds exactly.\<close>

definition dbl_times :: "'d env \<Rightarrow> 'd cdouble \<Rightarrow> int \<Rightarrow> int" where
  "dbl_times ev x k =
     (case x of
        DExact n \<Rightarrow> double_to_u64 ev (round53 (n * k))
      | DLib d \<Rightarrow> dbl_mul_u64 ev d k mod 2 ^ 64)"

section \<open>The handlers of the specifiers (lines 1640-2052)\<close>

text \<open>
  A handler returns \<open>None\<close> when the process ends in \<^verbatim>\<open>FATAL\<close>, else the value
  returned, the log item and the cursor. \<open>p\<close> is the template from the specifier letter
  on and \<open>end'\<close> the delimiter \<^verbatim>\<open>get_delim\<close> found. The global flags
  \<^verbatim>\<open>conf.bandwidth\<close> and \<^verbatim>\<open>conf.serve_usecs\<close>, which \<^verbatim>\<open>%b\<close> and the time-served
  specifiers set and no function of the parser reads, are not part of the state.
\<close>

type_synonym spec_ret = "(int \<times> glogitem \<times> string) option"

text \<open>\<^verbatim>\<open>return spec_err(logitem, ERR_SPEC_TOKN_NUL, *p, NULL)\<close>.\<close>

definition tok_null :: "glogitem \<Rightarrow> char \<Rightarrow> string \<Rightarrow> spec_ret" where
  "tok_null logitem c str =
     (case spec_err logitem ERR_SPEC_TOKN_NUL c None of (r, li) \<Rightarrow> Some (r, li, str))"

text \<open>\<^verbatim>\<open>spec_err(logitem, ERR_SPEC_TOKN_INV, *p, tkn); free(tkn); return 1\<close>.\<close>

definition tok_inv :: "glogitem \<Rightarrow> char \<Rightarrow> string \<Rightarrow> string \<Rightarrow> spec_ret" where
  "tok_inv logitem c tkn str =
     (case spec_err logitem ERR_SPEC_TOKN_INV c (Some tkn) of (r, li) \<Rightarrow> Some (1, li, str))"

definition skip_token :: "glogitem \<Rightarrow> string \<Rightarrow> string \<Rightarrow> spec_ret" where
  "skip_token logitem str p = Some (0, logitem, handle_default_case_token str p)"

definition spec_d :: "'d env \<Rightarrow> gconf \<Rightarrow> glogitem \<Rightarrow> string \<Rightarrow> string \<Rightarrow> string \<Rightarrow> spec_ret" where
  "spec_d ev conf logitem str p end' =
     (if date logitem \<noteq> None then skip_token logitem str p
      else
        let dfmt = date_format conf;
            fmtspcs = count_matches dfmt (CHR '' '');
            dspc = (if fmtspcs \<noteq> 0
                    then (case strchr str (CHR '' '') of
                            Some pch \<Rightarrow> find_alpha_count pch
                          | None \<Rightarrow> 0)
                    else 0)
        in case parse_string str end' (max dspc fmtspcs + 1) of
          None \<Rightarrow> tok_null logitem (CHR ''d'') str
        | Some (tkn, str') \<Rightarrow>
            (case str_to_time ev conf tkn dfmt (dt logitem) True of (r, tm) \<Rightarrow>
               if r \<noteq> 0 then tok_inv logitem (CHR ''d'') tkn str'
               else (case set_date ev conf tm of
                 None \<Rightarrow> tok_inv logitem (CHR ''d'') tkn str'
               | Some d \<Rightarrow>
                   (case set_numeric_date d of
                      None \<Rightarrow> None
                    | Some nd \<Rightarrow>
                        Some (0, set_tm_dt_logitem (logitem\<lparr>date := Some d, numdate := nd\<rparr>) tm,
                              str')))))"

definition spec_t :: "'d env \<Rightarrow> gconf \<Rightarrow> glogitem \<Rightarrow> string \<Rightarrow> string \<Rightarrow> string \<Rightarrow> spec_ret" where
  "spec_t ev conf logitem str p end' =
     (if time logitem \<noteq> None then skip_token logitem str p
      else case parse_string str end' 1 of
        None \<Rightarrow> tok_null logitem (CHR ''t'') str
      | Some (tkn, str') \<Rightarrow>
          (case str_to_time ev conf tkn (time_format conf) (dt logitem) True of (r, tm) \<Rightarrow>
             if r \<noteq> 0 then tok_inv logitem (CHR ''t'') tkn str'
             else (case set_time ev tm of
               None \<Rightarrow> tok_inv logitem (CHR ''t'') tkn str'
             | Some t \<Rightarrow> Some (0, set_tm_tm_logitem (logitem\<lparr>time := Some t\<rparr>) tm, str'))))"

definition spec_x :: "'d env \<Rightarrow> gconf \<Rightarrow> glogitem \<Rightarrow> string \<Rightarrow> string \<Rightarrow> string \<Rightarrow> spec_ret" where
  "spec_x ev conf logitem str p end' =
     (if time logitem \<noteq> None \<and> date logitem \<noteq> None then skip_token logitem str p
      else case parse_string str end' 1 of
        None \<Rightarrow> tok_null logitem (CHR ''x'') str
      | Some (tkn, str') \<Rightarrow>
          (case str_to_time ev conf tkn (time_format conf) (dt logitem) True of (r, tm) \<Rightarrow>
             if r \<noteq> 0 then tok_inv logitem (CHR ''x'') tkn str'
             else (case set_date ev conf tm of
               None \<Rightarrow> tok_inv logitem (CHR ''x'') tkn str'
             | Some d \<Rightarrow>
                 (case set_time ev tm of
                    None \<Rightarrow> tok_inv (logitem\<lparr>date := Some d\<rparr>) (CHR ''x'') tkn str'
                  | Some t \<Rightarrow>
                      (case set_numeric_date d of
                         None \<Rightarrow> None
                       | Some nd \<Rightarrow>
                           Some (0,
                             set_tm_tm_logitem
                               (set_tm_dt_logitem
                                  (logitem\<lparr>date := Some d, time := Some t, numdate := nd\<rparr>) tm) tm,
                             str'))))))"

text \<open>The five specifiers that store the token as it is: \<^verbatim>\<open>%v\<close>, \<^verbatim>\<open>%e\<close>, \<^verbatim>\<open>%k\<close>,
  \<^verbatim>\<open>%K\<close> and \<^verbatim>\<open>%M\<close>, each with the field it tests and sets.\<close>

definition spec_plain ::
  "glogitem \<Rightarrow> string \<Rightarrow> string \<Rightarrow> string \<Rightarrow> char \<Rightarrow> string option \<Rightarrow> (string \<Rightarrow> glogitem) \<Rightarrow> spec_ret" where
  "spec_plain logitem str p end' c field store =
     (if field \<noteq> None then skip_token logitem str p
      else case parse_string str end' 1 of
        None \<Rightarrow> tok_null logitem c str
      | Some (tkn, str') \<Rightarrow> Some (0, store tkn, str'))"

definition spec_C :: "glogitem \<Rightarrow> string \<Rightarrow> string \<Rightarrow> string \<Rightarrow> spec_ret" where
  "spec_C logitem str p end' =
     (if cache_status logitem \<noteq> None then skip_token logitem str p
      else case parse_string str end' 1 of
        None \<Rightarrow> tok_null logitem (CHR ''C'') str
      | Some (tkn, str') \<Rightarrow>
          if is_cache_hit tkn then Some (0, logitem\<lparr>cache_status := Some tkn\<rparr>, str')
          else Some (0, logitem, str'))"

definition spec_h :: "'d env \<Rightarrow> gconf \<Rightarrow> glogitem \<Rightarrow> string \<Rightarrow> string \<Rightarrow> string \<Rightarrow> spec_ret" where
  "spec_h ev conf logitem str p end' =
     (if host logitem \<noteq> None then skip_token logitem str p
      else
        let bracket = (case str of c # _ \<Rightarrow> c = CHR ''['' | [] \<Rightarrow> False);
            str1 = (if bracket then tl str else str);
            end1 = (if bracket \<and> str1 \<noteq> [] then '']'' else end')
        in case parse_string str1 end1 1 of
          None \<Rightarrow> tok_null logitem (CHR ''h'') str1
        | Some (tkn, str') \<Rightarrow>
            (let checked = (if \<not> no_ip_validation conf then Some (invalid_ipaddr ev tkn) else None);
                 li1 = (case checked of Some (_, ipvx) \<Rightarrow> logitem\<lparr>type_ip := ipvx\<rparr> | None \<Rightarrow> logitem)
             in if (case checked of Some (bad, _) \<Rightarrow> bad | None \<Rightarrow> False)
                  then tok_inv li1 (CHR ''h'') tkn str'
                else if no_ip_validation conf \<and> tkn = []
                  then tok_inv li1 (CHR ''h'') tkn str'
                else Some (0, li1\<lparr>host := Some tkn\<rparr>, str')))"

definition spec_m :: "glogitem \<Rightarrow> string \<Rightarrow> string \<Rightarrow> string \<Rightarrow> spec_ret" where
  "spec_m logitem str p end' =
     (if meth logitem \<noteq> None then skip_token logitem str p
      else case parse_string str end' 1 of
        None \<Rightarrow> tok_null logitem (CHR ''m'') str
      | Some (tkn, str') \<Rightarrow>
          (case extract_method tkn of
             None \<Rightarrow> tok_inv logitem (CHR ''m'') tkn str'
           | Some m \<Rightarrow> Some (0, logitem\<lparr>meth := Some m\<rparr>, str')))"

definition spec_U :: "gconf \<Rightarrow> glogitem \<Rightarrow> string \<Rightarrow> string \<Rightarrow> string \<Rightarrow> spec_ret" where
  "spec_U conf logitem str p end' =
     (if req logitem \<noteq> None then skip_token logitem str p
      else case parse_string str end' 1 of
        None \<Rightarrow> tok_null logitem (CHR ''U'') str
      | Some (tkn, str') \<Rightarrow>
          if tkn = [] then tok_null logitem (CHR ''U'') str'
          else (case decode_url conf tkn of
            None \<Rightarrow> tok_inv (logitem\<lparr>req := None\<rparr>) (CHR ''U'') tkn str'
          | Some r \<Rightarrow> Some (0, logitem\<lparr>req := Some r\<rparr>, str')))"

definition spec_q :: "gconf \<Rightarrow> glogitem \<Rightarrow> string \<Rightarrow> string \<Rightarrow> string \<Rightarrow> spec_ret" where
  "spec_q conf logitem str p end' =
     (if qstr logitem \<noteq> None then skip_token logitem str p
      else case parse_string str end' 1 of
        None \<Rightarrow> Some (0, logitem, str)
      | Some (tkn, str') \<Rightarrow>
          if tkn = [] then Some (0, logitem, str')
          else (case decode_url conf tkn of
            None \<Rightarrow> tok_inv (logitem\<lparr>qstr := None\<rparr>) (CHR ''q'') tkn str'
          | Some r \<Rightarrow> Some (0, logitem\<lparr>qstr := Some r\<rparr>, str')))"

definition spec_H :: "glogitem \<Rightarrow> string \<Rightarrow> string \<Rightarrow> string \<Rightarrow> spec_ret" where
  "spec_H logitem str p end' =
     (if protocol logitem \<noteq> None then skip_token logitem str p
      else case parse_string str end' 1 of
        None \<Rightarrow> tok_null logitem (CHR ''H'') str
      | Some (tkn, str') \<Rightarrow>
          (case extract_protocol tkn of
             None \<Rightarrow> tok_inv logitem (CHR ''H'') tkn str'
           | Some proto \<Rightarrow> Some (0, logitem\<lparr>protocol := Some proto\<rparr>, str')))"

definition spec_r :: "gconf \<Rightarrow> glogitem \<Rightarrow> string \<Rightarrow> string \<Rightarrow> string \<Rightarrow> spec_ret" where
  "spec_r conf logitem str p end' =
     (if req logitem \<noteq> None then skip_token logitem str p
      else case parse_string str end' 1 of
        None \<Rightarrow> tok_null logitem (CHR ''r'') str
      | Some (tkn, str') \<Rightarrow>
          (case parse_req conf tkn (meth logitem) (protocol logitem) of (rq, m, pr) \<Rightarrow>
             Some (0, logitem\<lparr>req := Some rq, meth := m, protocol := pr\<rparr>, str')))"

definition spec_s :: "gconf \<Rightarrow> glogitem \<Rightarrow> string \<Rightarrow> string \<Rightarrow> string \<Rightarrow> spec_ret" where
  "spec_s conf logitem str p end' =
     (if status logitem \<ge> 0 then skip_token logitem str p
      else case parse_string str end' 1 of
        None \<Rightarrow> tok_null logitem (CHR ''s'') str
      | Some (tkn, str') \<Rightarrow>
          (case strtol tkn of (v, consumed, erange) \<Rightarrow>
             (let li1 = logitem\<lparr>status := int_of_long v\<rparr> in
              if conv_failed tkn consumed erange
                 \<or> (\<not> no_strict_status conf \<and> \<not> is_valid_http_status (status li1))
              then tok_inv li1 (CHR ''s'') tkn str'
              else Some (0, li1, str'))))"

definition spec_b :: "glogitem \<Rightarrow> string \<Rightarrow> string \<Rightarrow> string \<Rightarrow> spec_ret" where
  "spec_b logitem str p end' =
     (if resp_size logitem \<noteq> 0 then skip_token logitem str p
      else case parse_string str end' 1 of
        None \<Rightarrow> tok_null logitem (CHR ''b'') str
      | Some (tkn, str') \<Rightarrow>
          (case strtoull tkn of (v, consumed, erange) \<Rightarrow>
             (let bandw = (if conv_failed tkn consumed erange then 0 else v)
              in Some (0, logitem\<lparr>resp_size := bandw\<rparr>, str'))))"

definition spec_R :: "gconf \<Rightarrow> glogitem \<Rightarrow> string \<Rightarrow> string \<Rightarrow> string \<Rightarrow> spec_ret" where
  "spec_R conf logitem str p end' =
     (if ref logitem \<noteq> None then skip_token logitem str p
      else
        let parsed = parse_string str end' 1;
            tkn0 = (case parsed of None \<Rightarrow> ''-'' | Some (t, _) \<Rightarrow> t);
            str' = (case parsed of None \<Rightarrow> str | Some (_, s) \<Rightarrow> s);
            tkn1 = (if tkn0 = [] then ''-'' else tkn0)
        in if tkn1 \<noteq> ''-'' then
             (case extract_keyphrase conf tkn1 of (r, tkn2, kp) \<Rightarrow>
                (let li1 = (case kp of Some k \<Rightarrow> logitem\<lparr>keyphrase := Some k\<rparr> | None \<Rightarrow> logitem);
                     li2 = (case extract_referer_site tkn2 of
                              Some s \<Rightarrow> li1\<lparr>site := s\<rparr>
                            | None \<Rightarrow> li1)
                 in Some (0, li2\<lparr>ref := Some tkn2\<rparr>, str')))
           else Some (0, logitem\<lparr>ref := Some tkn1\<rparr>, str'))"

definition spec_u :: "gconf \<Rightarrow> glogitem \<Rightarrow> string \<Rightarrow> string \<Rightarrow> string \<Rightarrow> spec_ret" where
  "spec_u conf logitem str p end' =
     (if agent logitem \<noteq> None then skip_token logitem str p
      else case parse_string str end' 1 of
        None \<Rightarrow> Some (0, logitem\<lparr>agent := Some ''-''\<rparr>, str)
      | Some (tkn, str') \<Rightarrow>
          if tkn \<noteq> [] then Some (0, logitem\<lparr>agent := decode_url conf tkn\<rparr>, str')
          else Some (0, logitem\<lparr>agent := Some ''-''\<rparr>, str'))"

definition spec_L :: "'d env \<Rightarrow> glogitem \<Rightarrow> string \<Rightarrow> string \<Rightarrow> string \<Rightarrow> spec_ret" where
  "spec_L ev logitem str p end' =
     (if serve_time logitem \<noteq> 0 then skip_token logitem str p
      else case parse_string str end' 1 of
        None \<Rightarrow> tok_null logitem (CHR ''L'') str
      | Some (tkn, str') \<Rightarrow>
          (case strtoull tkn of (v, consumed, erange) \<Rightarrow>
             (let serve_secs = (if conv_failed tkn consumed erange then DExact 0
                                else DExact (round53 v))
              in Some (0, logitem\<lparr>serve_time :=
                            (if dbl_gt0 ev serve_secs then dbl_times ev serve_secs MILS else 0)\<rparr>,
                       str'))))"

definition spec_T :: "'d env \<Rightarrow> glogitem \<Rightarrow> string \<Rightarrow> string \<Rightarrow> string \<Rightarrow> spec_ret" where
  "spec_T ev logitem str p end' =
     (if serve_time logitem \<noteq> 0 then skip_token logitem str p
      else case parse_string str end' 1 of
        None \<Rightarrow> tok_null logitem (CHR ''T'') str
      | Some (tkn, str') \<Rightarrow>
          (let conv = (if CHR ''.'' \<in> set tkn
                       then (case strtod ev tkn of (d, consumed, erange) \<Rightarrow>
                               (DLib d, consumed, erange))
                       else (case strtoull tkn of (v, consumed, erange) \<Rightarrow>
                               (DExact (round53 v), consumed, erange)))
           in case conv of (x, consumed, erange) \<Rightarrow>
             (let serve_secs = (if conv_failed tkn consumed erange then DExact 0 else x)
              in Some (0, logitem\<lparr>serve_time :=
                            (if dbl_gt0 ev serve_secs then dbl_times ev serve_secs SECS else 0)\<rparr>,
                       str'))))"

definition spec_D :: "glogitem \<Rightarrow> string \<Rightarrow> string \<Rightarrow> string \<Rightarrow> spec_ret" where
  "spec_D logitem str p end' =
     (if serve_time logitem \<noteq> 0 then skip_token logitem str p
      else case parse_string str end' 1 of
        None \<Rightarrow> tok_null logitem (CHR ''D'') str
      | Some (tkn, str') \<Rightarrow>
          (case strtoull tkn of (v, consumed, erange) \<Rightarrow>
             (let st = (if conv_failed tkn consumed erange then 0 else v)
              in Some (0, logitem\<lparr>serve_time := st\<rparr>, str'))))"

definition spec_n :: "glogitem \<Rightarrow> string \<Rightarrow> string \<Rightarrow> string \<Rightarrow> spec_ret" where
  "spec_n logitem str p end' =
     (if serve_time logitem \<noteq> 0 then skip_token logitem str p
      else case parse_string str end' 1 of
        None \<Rightarrow> tok_null logitem (CHR ''n'') str
      | Some (tkn, str') \<Rightarrow>
          (case strtoull tkn of (v, consumed, erange) \<Rightarrow>
             (let st = (if conv_failed tkn consumed erange then 0 else v)
              in Some (0, logitem\<lparr>serve_time := (if st > 0 then st div MILS else 0)\<rparr>, str'))))"

text \<open>The \<^verbatim>\<open>switch\<close> of \<^verbatim>\<open>parse_specifier\<close> on \<^verbatim>\<open>*p\<close>.\<close>

definition parse_specifier ::
  "'d env \<Rightarrow> gconf \<Rightarrow> glogitem \<Rightarrow> string \<Rightarrow> string \<Rightarrow> string \<Rightarrow> spec_ret" where
  "parse_specifier ev conf logitem str p end' =
     (let c = (case p of [] \<Rightarrow> NUL | x # _ \<Rightarrow> x) in
      if c = CHR ''d'' then spec_d ev conf logitem str p end'
      else if c = CHR ''t'' then spec_t ev conf logitem str p end'
      else if c = CHR ''x'' then spec_x ev conf logitem str p end'
      else if c = CHR ''v'' then
        spec_plain logitem str p end' c (vhost logitem) (\<lambda>t. logitem\<lparr>vhost := Some t\<rparr>)
      else if c = CHR ''e'' then
        spec_plain logitem str p end' c (userid logitem) (\<lambda>t. logitem\<lparr>userid := Some t\<rparr>)
      else if c = CHR ''C'' then spec_C logitem str p end'
      else if c = CHR ''h'' then spec_h ev conf logitem str p end'
      else if c = CHR ''m'' then spec_m logitem str p end'
      else if c = CHR ''U'' then spec_U conf logitem str p end'
      else if c = CHR ''q'' then spec_q conf logitem str p end'
      else if c = CHR ''H'' then spec_H logitem str p end'
      else if c = CHR ''r'' then spec_r conf logitem str p end'
      else if c = CHR ''s'' then spec_s conf logitem str p end'
      else if c = CHR ''b'' then spec_b logitem str p end'
      else if c = CHR ''R'' then spec_R conf logitem str p end'
      else if c = CHR ''u'' then spec_u conf logitem str p end'
      else if c = CHR ''L'' then spec_L ev logitem str p end'
      else if c = CHR ''T'' then spec_T ev logitem str p end'
      else if c = CHR ''D'' then spec_D logitem str p end'
      else if c = CHR ''n'' then spec_n logitem str p end'
      else if c = CHR ''k'' then
        spec_plain logitem str p end' c (tls_cypher logitem) (\<lambda>t. logitem\<lparr>tls_cypher := Some t\<rparr>)
      else if c = CHR ''K'' then
        spec_plain logitem str p end' c (tls_type logitem) (\<lambda>t. logitem\<lparr>tls_type := Some t\<rparr>)
      else if c = CHR ''M'' then
        spec_plain logitem str p end' c (mime_type logitem) (\<lambda>t. logitem\<lparr>mime_type := Some t\<rparr>)
      else if c = CHR ''~'' then Some (0, logitem, find_alpha str)
      else skip_token logitem str p)"

section \<open>The special specifier \<^verbatim>\<open>~h\<close> (lines 2059-2196)\<close>

text \<open>
  The scan of \<^verbatim>\<open>extract_braces\<close>: the offsets of the last unescaped \<^verbatim>\<open>{\<close> seen and
  of the first unescaped \<^verbatim>\<open>}\<close>, where the scan stops.
\<close>

fun braces_scan :: "string \<Rightarrow> nat \<Rightarrow> bool \<Rightarrow> nat option \<Rightarrow> nat option \<times> nat option" where
  "braces_scan [] i esc b1 = (b1, None)"
| "braces_scan (c # cs) i esc b1 =
     (if c = CHR 0x5C then braces_scan cs (i + 1) True b1
      else if c = CHR ''{'' \<and> \<not> esc then braces_scan cs (i + 1) esc (Some i)
      else if c = CHR ''}'' \<and> \<not> esc then (b1, Some i)
      else braces_scan cs (i + 1) False b1)"

text \<open>\<^verbatim>\<open>extract_braces\<close>: \<open>None\<close> for NULL, else the reject set and the template
  after the closing brace.\<close>

definition extract_braces :: "string \<Rightarrow> (string \<times> string) option" where
  "extract_braces p =
     (case braces_scan p 0 False None of
        (Some b1, Some b2) \<Rightarrow>
          if int b2 - (int b1 + 1) \<le> 0 then None
          else Some (take (b2 - (b1 + 1)) (drop (b1 + 1) p), drop (b2 + 1) p)
      | _ \<Rightarrow> None)"

definition strcspn :: "string \<Rightarrow> string \<Rightarrow> nat" where
  "strcspn s reject = length (takeWhile (\<lambda>c. c \<notin> set reject) s)"

text \<open>One candidate of \<^verbatim>\<open>set_xff_host\<close>: the first valid address becomes the
  host.\<close>

definition xff_take :: "'d env \<Rightarrow> glogitem \<Rightarrow> string \<Rightarrow> glogitem" where
  "xff_take ev logitem tkn =
     (case invalid_ipaddr ev tkn of (invalid_ip, ipvx) \<Rightarrow>
        if host logitem = None \<and> \<not> invalid_ip
        then logitem\<lparr>host := Some tkn, type_ip := ipvx\<rparr>
        else logitem)"

text \<open>
  The loop of \<^verbatim>\<open>set_xff_host\<close>. \<^verbatim>\<open>ptr\<close> and \<^verbatim>\<open>str\<close> are equal whenever the loop
  test runs, so one cursor \<open>s\<close> stands for both; the token is the trimmed copy that
  \<^verbatim>\<open>parsed_string\<close> makes of the next \<^verbatim>\<open>len\<close> bytes.
\<close>

function set_xff_host_loop ::
  "'d env \<Rightarrow> glogitem \<Rightarrow> string \<Rightarrow> string \<Rightarrow> bool \<Rightarrow> nat \<Rightarrow> glogitem" where
  "set_xff_host_loop ev logitem s skips out idx =
     (if s = [] then logitem
      else if strcspn s skips = 0
        then set_xff_host_loop ev logitem (tl s) skips out (idx + 1)
      else if idx < length skips \<and> host logitem \<noteq> None then logitem
      else if host logitem \<noteq> None
              \<and> fst (invalid_ipaddr ev (trim_str (take (strcspn s skips) s)))
        then logitem
      else if host (xff_take ev logitem (trim_str (take (strcspn s skips) s))) \<noteq> None \<and> out
        then xff_take ev logitem (trim_str (take (strcspn s skips) s))
      else set_xff_host_loop ev (xff_take ev logitem (trim_str (take (strcspn s skips) s)))
             (drop (strcspn s skips) s) skips out 0)"
  by pat_completeness auto
termination
  by (relation "measure (\<lambda>(ev, logitem, s, skips, out, idx). length s)") auto

declare set_xff_host_loop.simps [simp del]

definition set_xff_host :: "'d env \<Rightarrow> glogitem \<Rightarrow> string \<Rightarrow> string \<Rightarrow> bool \<Rightarrow> int \<times> glogitem" where
  "set_xff_host ev logitem str skips out =
     (let li = set_xff_host_loop ev logitem str skips out 0
      in (if host li = None then 1 else 0, li))"

text \<open>
  \<^verbatim>\<open>find_xff_host\<close>: the value returned, the log item, the cursor and the template
  position (moved past the braces by \<^verbatim>\<open>extract_braces\<close>). After a token was cut at
  a hard delimiter the cursor moves one byte on; where the source would step over the
  terminator (the delimiter occurs only escaped), the model's cursor stays at the end.
\<close>

definition find_xff_host ::
  "'d env \<Rightarrow> glogitem \<Rightarrow> string \<Rightarrow> string \<Rightarrow> int \<times> glogitem \<times> string \<times> string" where
  "find_xff_host ev logitem str p =
     (case extract_braces p of
        None \<Rightarrow>
          (case spec_err logitem ERR_SPEC_SFMT_MIS (case p of [] \<Rightarrow> NUL | x # _ \<Rightarrow> x) (Some ''{}'') of
             (r, li) \<Rightarrow> (r, li, str, p))
      | Some (skips, p') \<Rightarrow>
          (let c = (case p' of [] \<Rightarrow> NUL | x # _ \<Rightarrow> x) in
           if c \<noteq> NUL \<and> c \<notin> set skips \<and> c \<in> set str then
             (case parse_string str [c] 1 of
                None \<Rightarrow> (0, logitem, str, p')
              | Some (extract, str') \<Rightarrow>
                  (case set_xff_host ev logitem extract skips True of
                     (res, li) \<Rightarrow> (res, li, tl str', p')))
           else
             (case set_xff_host ev logitem str skips False of
                (res, li) \<Rightarrow> (res, li, str, p'))))"

definition special_specifier ::
  "'d env \<Rightarrow> glogitem \<Rightarrow> string \<Rightarrow> string \<Rightarrow> int \<times> glogitem \<times> string \<times> string" where
  "special_specifier ev logitem str p =
     (if (case p of [] \<Rightarrow> False | c # _ \<Rightarrow> c = CHR ''h'') then
        (case find_xff_host ev logitem str p of (r, li, str', p') \<Rightarrow>
           if r \<noteq> 0 then
             (case spec_err li ERR_SPEC_TOKN_NUL (CHR ''h'') None of
                (code, li') \<Rightarrow> (code, li', str', p'))
           else (0, li, str', p'))
      else (0, logitem, str, p))"

lemma braces_scan_bound:
  "braces_scan p i esc b1 = (x, Some b2) \<Longrightarrow> i \<le> b2"
  by (induction p i esc b1 rule: braces_scan.induct) (auto split: if_splits)

lemma extract_braces_length:
  "extract_braces p = Some (skips, p') \<Longrightarrow> length p' < length p \<or> p' = []"
  by (auto simp: extract_braces_def split: prod.splits option.splits if_splits)

lemma special_specifier_length:
  "special_specifier ev logitem str p = (r, li, str', p') \<Longrightarrow> length (tl p') < length p \<or> p = []"
  by (cases p)
     (auto simp: special_specifier_def find_xff_host_def spec_err_def
           split: prod.splits option.splits if_splits list.splits
           dest!: extract_braces_length)

section \<open>The walk over the template (lines 2203-2253)\<close>

text \<open>
  The loop of \<^verbatim>\<open>parse_format\<close>, with the rest of the template in the last argument:
  \<open>None\<close> when the process ends in \<^verbatim>\<open>FATAL\<close>, else the value returned and the log
  item. The two tests \<^verbatim>\<open>if (*str == '\0') return 0\<close> inside the branches of the source
  come after the test that returns \<^verbatim>\<open>ERR_SPEC_LINE_INV\<close> for the same condition and
  are never taken; \<^verbatim>\<open>p++\<close> after \<^verbatim>\<open>special_specifier\<close> steps over the byte that
  follows the braces.
\<close>

function parse_format_loop ::
  "'d env \<Rightarrow> gconf \<Rightarrow> glogitem \<Rightarrow> string \<Rightarrow> nat \<Rightarrow> nat \<Rightarrow> string \<Rightarrow> (int \<times> glogitem) option" where
  "parse_format_loop ev conf logitem str perc tilde [] = Some (0, logitem)"
| "parse_format_loop ev conf logitem str perc tilde (c # ps) =
     (if c = CHR ''%'' then parse_format_loop ev conf logitem str (perc + 1) tilde ps
      else if c = CHR ''~'' \<and> perc = 0 then parse_format_loop ev conf logitem str perc (tilde + 1) ps
      else if str = [] then Some (spec_err logitem ERR_SPEC_LINE_INV (CHR ''-'') None)
      else if hd str = CHR 0x0A then Some (0, logitem)
      else if tilde \<noteq> 0 \<and> c \<noteq> NUL then
        (case special_specifier ev logitem str (c # ps) of (r, li, str', p') \<Rightarrow>
           if r = 1 then Some (1, li)
           else parse_format_loop ev conf li str' perc 0 (tl p'))
      else if perc \<noteq> 0 \<and> c \<noteq> NUL then
        (case parse_specifier ev conf logitem str (c # ps) (get_delim (c # ps)) of
           None \<Rightarrow> None
         | Some (ret, li, str') \<Rightarrow>
             if ret \<noteq> 0 then Some (ret, li)
             else parse_format_loop ev conf li str' 0 tilde ps)
      else if perc \<noteq> 0 \<and> isspace c then Some (1, logitem)
      else parse_format_loop ev conf logitem (tl str) perc tilde ps)"
  by pat_completeness auto
termination
  apply (relation "measure (\<lambda>(ev, conf, logitem, str, perc, tilde, p). length p)")
         apply simp_all
  subgoal for ev logitem str perc tilde c ps r y li ya str' p'
    using special_specifier_length [of ev logitem str "c # ps" r li str' p']
    by simp
  done

definition parse_format :: "'d env \<Rightarrow> gconf \<Rightarrow> glogitem \<Rightarrow> string \<Rightarrow> string \<Rightarrow> (int \<times> glogitem) option" where
  "parse_format ev conf logitem str lfmt =
     (if str = [] then Some (1, logitem) else parse_format_loop ev conf logitem str 0 0 lfmt)"

section \<open>Lines (lines 2259-2281, 3224-3297)\<close>

definition valid_line :: "string \<Rightarrow> bool" where
  "valid_line line = (case line of [] \<Rightarrow> True | c # _ \<Rightarrow> c = CHR ''#'' \<or> c = CHR 0x0A)"

definition verify_missing_fields :: "glogitem \<Rightarrow> int \<times> glogitem" where
  "verify_missing_fields logitem =
     (let li = (if host logitem = None then logitem\<lparr>errstr := Some ''IPv4/6 is required.''\<rparr>
                else if date logitem = None then logitem\<lparr>errstr := Some ''A valid date is required.''\<rparr>
                else if req logitem = None then logitem\<lparr>errstr := Some ''A request is required.''\<rparr>
                else logitem)
      in (if errstr li \<noteq> None then 1 else 0, li))"

text \<open>\<^verbatim>\<open>parse_json_specifier\<close> is only called with a key and a value that are not
  NULL.\<close>

definition parse_json_specifier ::
  "'d env \<Rightarrow> gconf \<Rightarrow> glogitem \<Rightarrow> string \<Rightarrow> string \<Rightarrow> (int \<times> glogitem) option" where
  "parse_json_specifier ev conf logitem key str =
     (if length str = 0 then Some (0, logitem)
      else case json_logfmt ev key of
        None \<Rightarrow> Some (0, logitem)
      | Some spec \<Rightarrow> parse_format ev conf logitem str spec)"

text \<open>
  \<^verbatim>\<open>parse_json_string\<close> calls the callback for each scalar of the document with its
  dotted key, stops at the first call that does not return 0 and returns that value; the
  keys and values do not depend on what the callback does.
\<close>

fun parse_json_string ::
  "'d env \<Rightarrow> gconf \<Rightarrow> glogitem \<Rightarrow> (string \<times> string) list \<Rightarrow> int \<Rightarrow> (int \<times> glogitem) option" where
  "parse_json_string ev conf logitem [] final = Some (final, logitem)"
| "parse_json_string ev conf logitem ((key, val) # rest) final =
     (case parse_json_specifier ev conf logitem key val of
        None \<Rightarrow> None
      | Some (ret, li) \<Rightarrow>
          if ret \<noteq> 0 then Some (ret, li) else parse_json_string ev conf li rest final)"

definition parse_json_format :: "'d env \<Rightarrow> gconf \<Rightarrow> glogitem \<Rightarrow> string \<Rightarrow> (int \<times> glogitem) option" where
  "parse_json_format ev conf logitem str =
     (case json_scalars ev str of (scalars, final) \<Rightarrow>
        parse_json_string ev conf logitem scalars final)"

text \<open>The tokenizer \<^verbatim>\<open>parse_line\<close> selects.\<close>

definition tokenize :: "'d env \<Rightarrow> gconf \<Rightarrow> string \<Rightarrow> (int \<times> glogitem) option" where
  "tokenize ev conf line =
     (if is_json_log_format conf then parse_json_format ev conf init_log_item line
      else parse_format ev conf init_log_item line (log_format conf))"

text \<open>
  \<^verbatim>\<open>parse_line\<close>: the value returned and the log item stored through
  \<^verbatim>\<open>logitem_out\<close>, if any. On every path that returns a value other than 0 the log item,
  with its \<^verbatim>\<open>errstr\<close>, is freed by \<^verbatim>\<open>cleanup_logitem\<close> and nothing is stored.
\<close>

definition parse_line :: "'d env \<Rightarrow> gconf \<Rightarrow> string \<Rightarrow> (int \<times> glogitem option) option" where
  "parse_line ev conf line =
     (if valid_line line then Some (- 1, None)
      else case tokenize ev conf line of
        None \<Rightarrow> None
      | Some (ret, logitem) \<Rightarrow>
          if ret \<noteq> 0 then Some (ret, None)
          else case verify_missing_fields logitem of (ret', li) \<Rightarrow>
            if ret' \<noteq> 0 then Some (ret', None)
            else Some (ret', Some (if agent li = None then li\<lparr>agent := Some ''-''\<rparr> else li)))"

section \<open>Notions the properties are stated with\<close>







text \<open>A string has a new line in an escape when one of the two bytes after some
  \<^verbatim>\<open>%\<close> in it is CR or LF: only there can the removal of CR and LF bring a
  \<^verbatim>\<open>%\<close> and two hexadecimal digits together.\<close>

fun newline_in_escape :: "string \<Rightarrow> bool" where
  "newline_in_escape (c # cs) =
     ((c = CHR ''%'' \<and> list_ex (\<lambda>d. d = CHR 0x0D \<or> d = CHR 0x0A) (take 2 cs))
      \<or> newline_in_escape cs)"
| "newline_in_escape [] = False"


section \<open>Sample inputs\<close>

text \<open>
  A configuration and the answers of the C library on the few tokens used in the examples
  below (the address, date and time of the log line in \<^verbatim>\<open>main\<close>); on anything else the
  sample library fails. The examples instantiate theorems that hold for every library.
\<close>

definition sample_env :: "unit env" where
  "sample_env =
     \<lparr> inet_pton4 = (\<lambda>s. s = ''114.5.1.4'' \<or> s = ''10.0.0.1''),
       inet_pton6 = (\<lambda>s. s = ''2001:db8::1''),
       strptime = (\<lambda>s fmt tm.
          if fmt = ''%d/%b/%Y'' \<and> s = ''11/Jun/2023''
            then Some ([], tm\<lparr>tm_mday := 11, tm_mon := 5, tm_year := 123, tm_wday := 0,
                               tm_yday := 161\<rparr>)
          else if fmt = ''%H:%M:%S'' \<and> s = ''01:23:45''
            then Some ([], tm\<lparr>tm_hour := 1, tm_min := 23, tm_sec := 45\<rparr>)
          else None),
       localtime_r = (\<lambda>tz t. \<lparr> tm_sec = 0, tm_min = 0, tm_hour = 0, tm_mday = 1, tm_mon = 0,
              tm_year = 70, tm_wday = 4, tm_yday = 0, tm_isdst = 0, tm_gmtoff = 0 \<rparr>),
       timegm = (\<lambda>tm. 0),
       strftime = (\<lambda>n fmt tm.
          if fmt = ''%Y%m%d'' \<and> tm_year tm = 123 \<and> tm_mon tm = 5 \<and> tm_mday tm = 11 then ''20230611''
          else if fmt = ''%H:%M:%S'' \<and> tm_hour tm = 1 \<and> tm_min tm = 23 \<and> tm_sec tm = 45 then ''01:23:45''
          else []),
       strtod = (\<lambda>s. ((), 0, False)),
       dbl_pos = (\<lambda>d. False),
       dbl_mul_u64 = (\<lambda>d k. 0),
       fptoui_overflow = (\<lambda>n. 0),
       json_scalars = (\<lambda>s. ([], 0)),
       json_logfmt = (\<lambda>k. if k = ''status'' then Some ''%s''
                          else if k = ''request.method'' then Some ''%m''
                          else None) \<rparr>"


definition sample_conf :: gconf where
  "sample_conf =
     \<lparr> tz_name = None, date_format = ''%d/%b/%Y'', date_num_format = ''%Y%m%d'',
       time_format = ''%H:%M:%S'', log_format = ''%h %^[%d:%t %^] %U %s %b'',
       append_method = True, append_protocol = True, double_decode = False,
       no_strict_status = False, no_ip_validation = False, is_json_log_format = False \<rparr>"

definition sample_line :: string where
  "sample_line = ''114.5.1.4 - - [11/Jun/2023:01:23:45 +0800] /index.html 200 568''"

text \<open>The log item the tokenizer builds from the sample line.\<close>

definition sample_item :: glogitem where
  "sample_item =
     init_log_item\<lparr> date := Some ''20230611'', host := Some ''114.5.1.4'',
       req := Some ''/index.html'', status := 200, time := Some ''01:23:45'', resp_size := 568,
       numdate := 20230611, type_ip := TYPE_IPV4,
       dt := \<lparr> tm_sec = 45, tm_min = 23, tm_hour = 1, tm_mday = 11, tm_mon = 5,
               tm_year = 123, tm_wday = 0, tm_yday = 0, tm_isdst = - 1, tm_gmtoff = 0 \<rparr> \<rparr>"

section \<open>Invariants of the walk over the template\<close>

text \<open>A status is in order when it is the initial -1 or a registered code.\<close>

definition status_ok :: "glogitem \<Rightarrow> bool" where
  "status_ok logitem = (status logitem = - 1 \<or> is_valid_http_status (status logitem))"

text \<open>What a handler other than those of \<^verbatim>\<open>%h\<close> and \<^verbatim>\<open>%s\<close> leaves alone, what
  any handler guarantees, and what a walk that returns \<open>r\<close> guarantees.\<close>

definition frame :: "int \<Rightarrow> glogitem \<Rightarrow> glogitem \<Rightarrow> bool" where
  "frame r li li' =
     (host li' = host li \<and> status li' = status li \<and> (r = 0 \<longrightarrow> errstr li' = errstr li))"

definition step_inv :: "gconf \<Rightarrow> int \<Rightarrow> glogitem \<Rightarrow> glogitem \<Rightarrow> bool" where
  "step_inv conf r li li' =
     ((r = 0 \<longrightarrow> errstr li' = errstr li)
      \<and> (host li' = host li \<or> (\<exists>h. host li' = Some h \<and> h \<noteq> []))
      \<and> (r = 0 \<longrightarrow> status li' = status li
             \<or> (status li < 0 \<and> (\<not> no_strict_status conf \<longrightarrow> is_valid_http_status (status li')))))"

definition trace_inv :: "gconf \<Rightarrow> int \<Rightarrow> glogitem \<Rightarrow> glogitem \<Rightarrow> bool" where
  "trace_inv conf r li li' =
     ((r = 0 \<longrightarrow> errstr li' = errstr li)
      \<and> (host li \<noteq> Some [] \<longrightarrow> host li' \<noteq> Some [])
      \<and> (r = 0 \<and> \<not> no_strict_status conf \<and> status_ok li \<longrightarrow> status_ok li'))"

text \<open>The token \<^verbatim>\<open>%h\<close> extracts: after an opening bracket that is not the last byte
  of the input, up to the closing bracket.\<close>

definition host_token :: "string \<Rightarrow> string \<Rightarrow> (string \<times> string) option" where
  "host_token str end' =
     (let bracket = (case str of c # _ \<Rightarrow> c = CHR ''['' | [] \<Rightarrow> False);
          str1 = (if bracket then tl str else str);
          end1 = (if bracket \<and> str1 \<noteq> [] then '']'' else end')
      in parse_string str1 end1 1)"

text \<open>The test each handler makes on the log item before it extracts a token: whether
  the field of the specifier \<open>c\<close> counts as set already.\<close>

definition field_set :: "glogitem \<Rightarrow> char \<Rightarrow> bool" where
  "field_set logitem c =
     (if c = CHR ''d'' then date logitem \<noteq> None
      else if c = CHR ''t'' then time logitem \<noteq> None
      else if c = CHR ''x'' then time logitem \<noteq> None \<and> date logitem \<noteq> None
      else if c = CHR ''v'' then vhost logitem \<noteq> None
      else if c = CHR ''e'' then userid logitem \<noteq> None
      else if c = CHR ''C'' then cache_status logitem \<noteq> None
      else if c = CHR ''h'' then host logitem \<noteq> None
      else if c = CHR ''m'' then meth logitem \<noteq> None
      else if c = CHR ''U'' \<or> c = CHR ''r'' then req logitem \<noteq> None
      else if c = CHR ''q'' then qstr logitem \<noteq> None
      else if c = CHR ''H'' then protocol logitem \<noteq> None
      else if c = CHR ''s'' then status logitem \<ge> 0
      else if c = CHR ''b'' then resp_size logitem \<noteq> 0
      else if c = CHR ''R'' then ref logitem \<noteq> None
      else if c = CHR ''u'' then agent logitem \<noteq> None
      else if c = CHR ''L'' \<or> c = CHR ''T'' \<or> c = CHR ''D'' \<or> c = CHR ''n''
        then serve_time logitem \<noteq> 0
      else if c = CHR ''k'' then tls_cypher logitem \<noteq> None
      else if c = CHR ''K'' then tls_type logitem \<noteq> None
      else if c = CHR ''M'' then mime_type logitem \<noteq> None
      else False)"

section \<open>The tokens parsed by \<^verbatim>\<open>%s\<close> in the course of a line\<close>

text \<open>
  The tokens that the handler of \<^verbatim>\<open>%s\<close> parses with success while a line is
  tokenized, in order. A call of \<^verbatim>\<open>parse_specifier\<close> counts when the specifier is
  \<^verbatim>\<open>s\<close>, the status of the log item is negative, so that the handler does not skip
  the token, and the call returns 0; the token is the one \<^verbatim>\<open>parse_string\<close> extracts
  at that point. The functions follow \<^verbatim>\<open>parse_format\<close>, the callback of
  \<^verbatim>\<open>parse_json_string\<close> and the tokenizer of \<^verbatim>\<open>parse_line\<close> step by step and
  only observe them.
\<close>

function status_tokens_loop ::
  "'d env \<Rightarrow> gconf \<Rightarrow> glogitem \<Rightarrow> string \<Rightarrow> nat \<Rightarrow> nat \<Rightarrow> string \<Rightarrow> string list" where
  "status_tokens_loop ev conf logitem str perc tilde [] = []"
| "status_tokens_loop ev conf logitem str perc tilde (c # ps) =
     (if c = CHR ''%'' then status_tokens_loop ev conf logitem str (perc + 1) tilde ps
      else if c = CHR ''~'' \<and> perc = 0 then status_tokens_loop ev conf logitem str perc (tilde + 1) ps
      else if str = [] then []
      else if hd str = CHR 0x0A then []
      else if tilde \<noteq> 0 \<and> c \<noteq> NUL then
        (case special_specifier ev logitem str (c # ps) of (r, li, str', p') \<Rightarrow>
           if r = 1 then []
           else status_tokens_loop ev conf li str' perc 0 (tl p'))
      else if perc \<noteq> 0 \<and> c \<noteq> NUL then
        (case parse_specifier ev conf logitem str (c # ps) (get_delim (c # ps)) of
           None \<Rightarrow> []
         | Some (ret, li, str') \<Rightarrow>
             if ret \<noteq> 0 then []
             else (if c = CHR ''s'' \<and> status logitem < 0
                   then (case parse_string str (get_delim (c # ps)) 1 of
                           None \<Rightarrow> []
                         | Some (tkn, _) \<Rightarrow> [tkn])
                   else [])
                  @ status_tokens_loop ev conf li str' 0 tilde ps)
      else if perc \<noteq> 0 \<and> isspace c then []
      else status_tokens_loop ev conf logitem (tl str) perc tilde ps)"
  by pat_completeness auto
termination
  apply (relation "measure (\<lambda>(ev, conf, logitem, str, perc, tilde, p). length p)")
         apply simp_all
  subgoal for ev logitem str perc tilde c ps r y li ya str' p'
    using special_specifier_length [of ev logitem str "c # ps" r li str' p']
    by simp
  done

declare status_tokens_loop.simps(2) [simp del]

definition status_tokens_format ::
  "'d env \<Rightarrow> gconf \<Rightarrow> glogitem \<Rightarrow> string \<Rightarrow> string \<Rightarrow> string list" where
  "status_tokens_format ev conf logitem str lfmt =
     (if str = [] then [] else status_tokens_loop ev conf logitem str 0 0 lfmt)"

fun status_tokens_json ::
  "'d env \<Rightarrow> gconf \<Rightarrow> glogitem \<Rightarrow> (string \<times> string) list \<Rightarrow> string list" where
  "status_tokens_json ev conf logitem [] = []"
| "status_tokens_json ev conf logitem ((key, val) # rest) =
     (case parse_json_specifier ev conf logitem key val of
        None \<Rightarrow> []
      | Some (ret, li) \<Rightarrow>
          (if length val = 0 then []
           else case json_logfmt ev key of
             None \<Rightarrow> []
           | Some spec \<Rightarrow> status_tokens_format ev conf logitem val spec)
          @ (if ret \<noteq> 0 then [] else status_tokens_json ev conf li rest))"

definition status_tokens :: "'d env \<Rightarrow> gconf \<Rightarrow> string \<Rightarrow> string list" where
  "status_tokens ev conf line =
     (if is_json_log_format conf
      then status_tokens_json ev conf init_log_item (fst (json_scalars ev line))
      else status_tokens_format ev conf init_log_item line (log_format conf))"

text \<open>The 32-bit integer a token stands for, and the status after a list of tokens
  was parsed by \<^verbatim>\<open>%s\<close> from a log item with status \<open>s0\<close>.\<close>

definition status_of_token :: "string \<Rightarrow> int" where
  "status_of_token tkn = int_of_long (fst (strtol tkn))"

definition status_after :: "int \<Rightarrow> string list \<Rightarrow> int" where
  "status_after s0 tkns = (if tkns = [] then s0 else status_of_token (last tkns))"

section \<open>URL decoding: lemmas\<close>






















lemma rtrim_Nil: "rtrim [] = []"
  by (simp add: rtrim_def)






section \<open>URL decoding: refinement, idempotence and double decoding\<close>





lemma newline_in_escape_tl: "\<not> newline_in_escape (c # cs) \<Longrightarrow> \<not> newline_in_escape cs"
  by simp











section \<open>The walk over the template: lemmas\<close>

lemma frame_refl: "frame 0 li li"
  by (simp add: frame_def)

lemma tok_null_frame: "tok_null li c s = Some (r, li', s') \<Longrightarrow> frame r li li'"
  by (auto simp: tok_null_def spec_err_def frame_def ERR_SPEC_TOKN_NUL_def)

lemma tok_inv_frame: "tok_inv li c t s = Some (r, li', s') \<Longrightarrow> frame r li li'"
  by (auto simp: tok_inv_def spec_err_def frame_def)

lemma skip_token_frame: "skip_token li s p = Some (r, li', s') \<Longrightarrow> frame r li li'"
  by (auto simp: skip_token_def frame_def)

lemmas handler_frames = tok_null_frame tok_inv_frame skip_token_frame

lemma spec_d_frame: "spec_d ev conf li s p e = Some (r, li', s') \<Longrightarrow> frame r li li'"
  by (auto simp: spec_d_def Let_def set_tm_dt_logitem_def frame_def
      split: if_splits option.splits prod.splits dest!: handler_frames)

lemma spec_t_frame: "spec_t ev conf li s p e = Some (r, li', s') \<Longrightarrow> frame r li li'"
  by (auto simp: spec_t_def Let_def set_tm_tm_logitem_def frame_def
      split: if_splits option.splits prod.splits dest!: handler_frames)

lemma spec_x_frame: "spec_x ev conf li s p e = Some (r, li', s') \<Longrightarrow> frame r li li'"
  by (auto simp: spec_x_def Let_def set_tm_tm_logitem_def set_tm_dt_logitem_def frame_def
      split: if_splits option.splits prod.splits dest!: handler_frames)

lemma spec_C_frame: "spec_C li s p e = Some (r, li', s') \<Longrightarrow> frame r li li'"
  by (auto simp: spec_C_def frame_def split: if_splits option.splits prod.splits dest!: handler_frames)

lemma spec_m_frame: "spec_m li s p e = Some (r, li', s') \<Longrightarrow> frame r li li'"
  by (auto simp: spec_m_def frame_def split: if_splits option.splits prod.splits dest!: handler_frames)

lemma spec_U_frame: "spec_U conf li s p e = Some (r, li', s') \<Longrightarrow> frame r li li'"
  by (auto simp: spec_U_def frame_def split: if_splits option.splits prod.splits dest!: handler_frames)

lemma spec_q_frame: "spec_q conf li s p e = Some (r, li', s') \<Longrightarrow> frame r li li'"
  by (auto simp: spec_q_def frame_def split: if_splits option.splits prod.splits dest!: handler_frames)

lemma spec_H_frame: "spec_H li s p e = Some (r, li', s') \<Longrightarrow> frame r li li'"
  by (auto simp: spec_H_def frame_def split: if_splits option.splits prod.splits dest!: handler_frames)

lemma spec_r_frame: "spec_r conf li s p e = Some (r, li', s') \<Longrightarrow> frame r li li'"
  by (auto simp: spec_r_def frame_def split: if_splits option.splits prod.splits dest!: handler_frames)

lemma spec_b_frame: "spec_b li s p e = Some (r, li', s') \<Longrightarrow> frame r li li'"
  by (auto simp: spec_b_def Let_def frame_def split: if_splits option.splits prod.splits dest!: handler_frames)

lemma spec_R_frame: "spec_R conf li s p e = Some (r, li', s') \<Longrightarrow> frame r li li'"
  by (auto simp: spec_R_def Let_def frame_def split: if_splits option.splits prod.splits dest!: handler_frames)

lemma spec_u_frame: "spec_u conf li s p e = Some (r, li', s') \<Longrightarrow> frame r li li'"
  by (auto simp: spec_u_def frame_def split: if_splits option.splits prod.splits dest!: handler_frames)

lemma spec_L_frame: "spec_L ev li s p e = Some (r, li', s') \<Longrightarrow> frame r li li'"
  by (auto simp: spec_L_def Let_def frame_def split: if_splits option.splits prod.splits dest!: handler_frames)

lemma spec_T_frame: "spec_T ev li s p e = Some (r, li', s') \<Longrightarrow> frame r li li'"
  by (auto simp: spec_T_def Let_def frame_def split: if_splits option.splits prod.splits dest!: handler_frames)

lemma spec_D_frame: "spec_D li s p e = Some (r, li', s') \<Longrightarrow> frame r li li'"
  by (auto simp: spec_D_def Let_def frame_def split: if_splits option.splits prod.splits dest!: handler_frames)

lemma spec_n_frame: "spec_n li s p e = Some (r, li', s') \<Longrightarrow> frame r li li'"
  by (auto simp: spec_n_def Let_def frame_def split: if_splits option.splits prod.splits dest!: handler_frames)

lemma spec_plain_frame:
  assumes "spec_plain li s p e c field store = Some (r, li', s')"
    and "\<And>t. frame 0 li (store t)"
  shows "frame r li li'"
  using assms
  by (auto simp: spec_plain_def split: if_splits option.splits prod.splits dest!: handler_frames)

lemmas spec_frames = spec_d_frame spec_t_frame spec_x_frame spec_C_frame spec_m_frame spec_U_frame
  spec_q_frame spec_H_frame spec_r_frame spec_b_frame spec_R_frame spec_u_frame spec_L_frame
  spec_T_frame spec_D_frame spec_n_frame skip_token_frame


lemma frame_step_inv: "frame r li li' \<Longrightarrow> step_inv conf r li li'"
  by (simp add: frame_def step_inv_def)

lemma invalid_ipaddr_empty: "invalid_ipaddr ev t = (False, ip) \<Longrightarrow> t \<noteq> []"
  by (auto simp: invalid_ipaddr_def)

lemma spec_h_step: "spec_h ev conf li s p e = Some (r, li', s') \<Longrightarrow> step_inv conf r li li'"
  by (auto simp: spec_h_def Let_def step_inv_def tok_null_def tok_inv_def spec_err_def
        skip_token_def ERR_SPEC_TOKN_NUL_def
      split: if_splits option.splits prod.splits dest: invalid_ipaddr_empty)

lemma spec_s_step: "spec_s conf li s p e = Some (r, li', s') \<Longrightarrow> step_inv conf r li li'"
  by (auto simp: spec_s_def Let_def step_inv_def tok_null_def tok_inv_def spec_err_def
        skip_token_def ERR_SPEC_TOKN_NUL_def
      split: if_splits option.splits prod.splits)

lemma parse_specifier_frame:
  assumes "parse_specifier ev conf li s p e = Some (r, li', s')"
    and "p = [] \<or> (hd p \<noteq> CHR ''h'' \<and> hd p \<noteq> CHR ''s'')"
  shows "frame r li li'"
  using assms
  by (cases p)
     (auto simp: parse_specifier_def Let_def NUL_def spec_plain_def frame_def
        split: if_splits option.splits dest!: spec_frames handler_frames)

lemma parse_specifier_step:
  assumes "parse_specifier ev conf li s p e = Some (r, li', s')"
  shows "step_inv conf r li li'"
proof (cases "p = [] \<or> (hd p \<noteq> CHR ''h'' \<and> hd p \<noteq> CHR ''s'')")
  case True
  from parse_specifier_frame [OF assms True] show ?thesis
    by (rule frame_step_inv)
next
  case False
  then obtain c ps where p: "p = c # ps" and c: "c = CHR ''h'' \<or> c = CHR ''s''"
    by (cases p) auto
  with assms show ?thesis
    by (auto simp: parse_specifier_def dest: spec_h_step spec_s_step)
qed


lemma xff_take_step: "step_inv conf 0 li (xff_take ev li t)"
  by (auto simp: xff_take_def step_inv_def split: prod.splits dest: invalid_ipaddr_empty)

lemma step_inv_trans:
  "step_inv conf 0 li li1 \<Longrightarrow> step_inv conf 0 li1 li2 \<Longrightarrow> host li = None \<or> host li1 = host li
   \<Longrightarrow> status li1 = status li \<Longrightarrow> status li2 = status li1 \<Longrightarrow> step_inv conf 0 li li2"
  by (auto simp: step_inv_def)

lemma xff_take_status: "status (xff_take ev li t) = status li"
  by (auto simp: xff_take_def split: prod.splits)

lemma xff_take_errstr: "errstr (xff_take ev li t) = errstr li"
  by (auto simp: xff_take_def split: prod.splits)

lemma xff_take_host:
  "host (xff_take ev li t) = host li \<or> (\<exists>h. host (xff_take ev li t) = Some h \<and> h \<noteq> [])"
  by (auto simp: xff_take_def split: prod.splits dest: invalid_ipaddr_empty)

lemma set_xff_host_loop_keeps:
  "status (set_xff_host_loop ev li s skips out idx) = status li
   \<and> errstr (set_xff_host_loop ev li s skips out idx) = errstr li
   \<and> (host li \<noteq> Some [] \<longrightarrow> host (set_xff_host_loop ev li s skips out idx) \<noteq> Some [])"
proof (induction ev li s skips out idx rule: set_xff_host_loop.induct)
  case (1 ev logitem s skips out idx)
  let ?t = "trim_str (take (strcspn s skips) s)"
  have h: "host logitem \<noteq> Some [] \<longrightarrow> host (xff_take ev logitem ?t) \<noteq> Some []"
    using xff_take_host [of ev logitem ?t] by auto
  show ?case
    using 1 h
    by (subst (1 2 3) set_xff_host_loop.simps)
       (simp add: xff_take_status xff_take_errstr)
qed

lemma find_xff_host_step:
  "find_xff_host ev li s p = (r, li', s', p') \<Longrightarrow>
     status li' = status li \<and> (r = 0 \<longrightarrow> errstr li' = errstr li)
     \<and> (host li \<noteq> Some [] \<longrightarrow> host li' \<noteq> Some [])"
  using set_xff_host_loop_keeps [of ev li _ _ _ 0]
  by (auto simp: find_xff_host_def set_xff_host_def spec_err_def Let_def ERR_SPEC_SFMT_MIS_def
      split: option.splits prod.splits if_splits)

lemma special_specifier_step:
  "special_specifier ev li s p = (r, li', s', p') \<Longrightarrow>
     (r = 0 \<or> r = 1) \<and> status li' = status li \<and> (r = 0 \<longrightarrow> errstr li' = errstr li)
     \<and> (host li \<noteq> Some [] \<longrightarrow> host li' \<noteq> Some [])"
  by (auto simp: special_specifier_def spec_err_def ERR_SPEC_TOKN_NUL_def
      split: prod.splits if_splits dest!: find_xff_host_step)

lemma trace_inv_refl: "trace_inv conf 0 li li"
  by (simp add: trace_inv_def)

lemma step_inv_trace_inv: "step_inv conf r li li' \<Longrightarrow> trace_inv conf r li li'"
  by (auto simp: step_inv_def trace_inv_def status_ok_def)

lemma trace_inv_step:
  "trace_inv conf 0 li li1 \<Longrightarrow> trace_inv conf r li1 li' \<Longrightarrow> trace_inv conf r li li'"
  by (auto simp: trace_inv_def)

lemma trace_inv_err: "errstr li' = e \<Longrightarrow> host li' = host li \<Longrightarrow> r \<noteq> 0 \<Longrightarrow> trace_inv conf r li li'"
  by (auto simp: trace_inv_def)

lemma parse_format_loop_special:
  assumes "c \<noteq> CHR ''%''" "\<not> (c = CHR ''~'' \<and> perc = 0)" "str \<noteq> []" "hd str \<noteq> CHR 0x0A"
    "tilde \<noteq> 0 \<and> c \<noteq> NUL"
    and "special_specifier ev logitem str (c # ps) = (r1, li1, str1, p1)"
  shows "parse_format_loop ev conf logitem str perc tilde (c # ps) =
           (if r1 = 1 then Some (1, li1) else parse_format_loop ev conf li1 str1 perc 0 (tl p1))"
  using assms by (subst parse_format_loop.simps) (auto simp del: parse_format_loop.simps)

lemma parse_format_loop_spec:
  assumes "c \<noteq> CHR ''%''" "\<not> (c = CHR ''~'' \<and> perc = 0)" "str \<noteq> []" "hd str \<noteq> CHR 0x0A"
    "\<not> (tilde \<noteq> 0 \<and> c \<noteq> NUL)" "perc \<noteq> 0 \<and> c \<noteq> NUL"
  shows "parse_format_loop ev conf logitem str perc tilde (c # ps) =
           (case parse_specifier ev conf logitem str (c # ps) (get_delim (c # ps)) of
              None \<Rightarrow> None
            | Some (ret, li, str') \<Rightarrow>
                if ret \<noteq> 0 then Some (ret, li)
                else parse_format_loop ev conf li str' 0 tilde ps)"
  using assms by (subst parse_format_loop.simps) (auto simp del: parse_format_loop.simps)

lemma parse_format_loop_eol:
  assumes "c \<noteq> CHR ''%''" "\<not> (c = CHR ''~'' \<and> perc = 0)"
  shows "parse_format_loop ev conf logitem [] perc tilde (c # ps) =
           Some (spec_err logitem ERR_SPEC_LINE_INV (CHR ''-'') None)"
  using assms by (subst parse_format_loop.simps) (auto simp del: parse_format_loop.simps)

lemma parse_format_loop_nl:
  assumes "c \<noteq> CHR ''%''" "\<not> (c = CHR ''~'' \<and> perc = 0)" "str \<noteq> []" "hd str = CHR 0x0A"
  shows "parse_format_loop ev conf logitem str perc tilde (c # ps) = Some (0, logitem)"
  using assms by (subst parse_format_loop.simps) (auto simp del: parse_format_loop.simps)

lemma parse_format_loop_space:
  assumes "c \<noteq> CHR ''%''" "\<not> (c = CHR ''~'' \<and> perc = 0)" "str \<noteq> []" "hd str \<noteq> CHR 0x0A"
    "\<not> (tilde \<noteq> 0 \<and> c \<noteq> NUL)" "\<not> (perc \<noteq> 0 \<and> c \<noteq> NUL)" "perc \<noteq> 0 \<and> isspace c"
  shows "parse_format_loop ev conf logitem str perc tilde (c # ps) = Some (1, logitem)"
  using assms by (subst parse_format_loop.simps) (auto simp del: parse_format_loop.simps)

lemma parse_format_loop_lit:
  assumes "c \<noteq> CHR ''%''" "\<not> (c = CHR ''~'' \<and> perc = 0)" "str \<noteq> []" "hd str \<noteq> CHR 0x0A"
    "\<not> (tilde \<noteq> 0 \<and> c \<noteq> NUL)" "\<not> (perc \<noteq> 0 \<and> c \<noteq> NUL)" "\<not> (perc \<noteq> 0 \<and> isspace c)"
  shows "parse_format_loop ev conf logitem str perc tilde (c # ps) =
           parse_format_loop ev conf logitem (tl str) perc tilde ps"
  using assms by (subst parse_format_loop.simps) (auto simp del: parse_format_loop.simps)

lemma parse_format_loop_inv:
  "parse_format_loop ev conf li str perc tilde p = Some (r, li') \<Longrightarrow> trace_inv conf r li li'"
proof (induction ev conf li str perc tilde p arbitrary: r li' rule: parse_format_loop.induct)
  case (1 ev conf logitem str perc tilde)
  then show ?case by (simp add: trace_inv_refl)
next
  case (2 ev conf logitem str perc tilde c ps)
  note prems = "2.prems"
  consider (perc) "c = CHR ''%''"
    | (tilde) "c \<noteq> CHR ''%''" "c = CHR ''~'' \<and> perc = 0"
    | (eol) "c \<noteq> CHR ''%''" "\<not> (c = CHR ''~'' \<and> perc = 0)" "str = []"
    | (nl) "c \<noteq> CHR ''%''" "\<not> (c = CHR ''~'' \<and> perc = 0)" "str \<noteq> []" "hd str = CHR 0x0A"
    | (special) "c \<noteq> CHR ''%''" "\<not> (c = CHR ''~'' \<and> perc = 0)" "str \<noteq> []" "hd str \<noteq> CHR 0x0A"
        "tilde \<noteq> 0 \<and> c \<noteq> NUL"
    | (spec) "c \<noteq> CHR ''%''" "\<not> (c = CHR ''~'' \<and> perc = 0)" "str \<noteq> []" "hd str \<noteq> CHR 0x0A"
        "\<not> (tilde \<noteq> 0 \<and> c \<noteq> NUL)" "perc \<noteq> 0 \<and> c \<noteq> NUL"
    | (space) "c \<noteq> CHR ''%''" "\<not> (c = CHR ''~'' \<and> perc = 0)" "str \<noteq> []" "hd str \<noteq> CHR 0x0A"
        "\<not> (tilde \<noteq> 0 \<and> c \<noteq> NUL)" "\<not> (perc \<noteq> 0 \<and> c \<noteq> NUL)" "perc \<noteq> 0 \<and> isspace c"
    | (lit) "c \<noteq> CHR ''%''" "\<not> (c = CHR ''~'' \<and> perc = 0)" "str \<noteq> []" "hd str \<noteq> CHR 0x0A"
        "\<not> (tilde \<noteq> 0 \<and> c \<noteq> NUL)" "\<not> (perc \<noteq> 0 \<and> c \<noteq> NUL)" "\<not> (perc \<noteq> 0 \<and> isspace c)"
    by blast
  then show ?case
  proof cases
    case perc
    with prems have "parse_format_loop ev conf logitem str (perc + 1) tilde ps = Some (r, li')"
      by (subst (asm) parse_format_loop.simps) (simp del: parse_format_loop.simps)
    from "2.IH"(1) [OF perc this] show ?thesis .
  next
    case tilde
    with prems have "parse_format_loop ev conf logitem str perc (tilde + 1) ps = Some (r, li')"
      by (subst (asm) parse_format_loop.simps) (simp del: parse_format_loop.simps)
    from "2.IH"(2) [OF tilde this] show ?thesis .
  next
    case eol
    from prems [unfolded eol(3) parse_format_loop_eol [OF eol(1,2)]]
    have "r = ERR_SPEC_LINE_INV" "host li' = host logitem"
      by (auto simp: spec_err_def)
    then show ?thesis
      by (simp add: trace_inv_def ERR_SPEC_LINE_INV_def)
  next
    case nl
    from prems [unfolded parse_format_loop_nl [OF nl]] show ?thesis
      by (simp add: trace_inv_refl)
  next
    case special
    obtain r1 li1 str1 p1 where sp: "special_specifier ev logitem str (c # ps) = (r1, li1, str1, p1)"
      by (cases "special_specifier ev logitem str (c # ps)") auto
    note st = special_specifier_step [OF sp]
    note eq = prems [unfolded parse_format_loop_special [OF special sp]]
    show ?thesis
    proof (cases "r1 = 1")
      case True
      with eq have "r = 1" "li' = li1" by simp_all
      with st show ?thesis
        by (simp add: trace_inv_def)
    next
      case False
      with st have r1: "r1 = 0" by simp
      from eq False
      have "parse_format_loop ev conf li1 str1 perc 0 (tl p1) = Some (r, li')"
        by simp
      from "2.IH"(3) [OF special(1,2,3,4,5) sp [symmetric] refl refl False this]
      have "trace_inv conf r li1 li'" .
      moreover from st r1 have "trace_inv conf 0 logitem li1"
        by (simp add: trace_inv_def status_ok_def)
      ultimately show ?thesis by (rule trace_inv_step [rotated])
    qed
  next
    case spec
    note eq = prems [unfolded parse_format_loop_spec [OF spec]]
    then obtain ret li1 str1 where
      ps: "parse_specifier ev conf logitem str (c # ps) (get_delim (c # ps)) = Some (ret, li1, str1)"
      by (cases "parse_specifier ev conf logitem str (c # ps) (get_delim (c # ps))") auto
    note st = parse_specifier_step [OF ps]
    show ?thesis
    proof (cases "ret = 0")
      case True
      from eq ps True
      have "parse_format_loop ev conf li1 str1 0 tilde ps = Some (r, li')"
        by simp
      from "2.IH"(4) [OF spec(1,2,3,4,5,6) ps refl refl _ this] True
      have "trace_inv conf r li1 li'" by simp
      moreover from st True have "trace_inv conf 0 logitem li1"
        by (simp add: step_inv_trace_inv)
      ultimately show ?thesis by (rule trace_inv_step [rotated])
    next
      case False
      with eq ps have "r = ret" "li' = li1" by simp_all
      with st show ?thesis by (simp add: step_inv_trace_inv)
    qed
  next
    case space
    from prems [unfolded parse_format_loop_space [OF space]] show ?thesis
      by (simp add: trace_inv_def)
  next
    case lit
    from prems [unfolded parse_format_loop_lit [OF lit]]
    have "parse_format_loop ev conf logitem (tl str) perc tilde ps = Some (r, li')" .
    from "2.IH"(5) [OF lit this] show ?thesis .
  qed
qed

section \<open>Lines: lemmas\<close>

lemma parse_format_inv:
  "parse_format ev conf li str lfmt = Some (r, li') \<Longrightarrow> trace_inv conf r li li'"
  by (auto simp: parse_format_def trace_inv_def split: if_splits dest: parse_format_loop_inv)

lemma parse_json_specifier_inv:
  "parse_json_specifier ev conf li key str = Some (r, li') \<Longrightarrow> trace_inv conf r li li'"
  by (auto simp: parse_json_specifier_def trace_inv_refl split: if_splits option.splits
      dest: parse_format_inv)

lemma parse_json_string_inv:
  "parse_json_string ev conf li scalars final = Some (r, li') \<Longrightarrow> trace_inv conf r li li'"
proof (induction scalars arbitrary: li)
  case Nil
  then show ?case by (auto simp: trace_inv_def)
next
  case (Cons kv scalars)
  obtain key val where kv: "kv = (key, val)" by (cases kv)
  from Cons.prems kv obtain ret li1 where
    sp: "parse_json_specifier ev conf li key val = Some (ret, li1)"
    by (auto split: option.splits)
  note st = parse_json_specifier_inv [OF sp]
  show ?case
  proof (cases "ret = 0")
    case True
    with Cons.prems kv sp have "parse_json_string ev conf li1 scalars final = Some (r, li')"
      by simp
    from Cons.IH [OF this] st True show ?thesis
      by (auto intro: trace_inv_step)
  next
    case False
    with Cons.prems kv sp st show ?thesis by auto
  qed
qed

lemma tokenize_inv:
  "tokenize ev conf line = Some (r, li) \<Longrightarrow> trace_inv conf r init_log_item li"
  by (auto simp: tokenize_def parse_json_format_def split: if_splits prod.splits
      dest: parse_format_inv parse_json_string_inv)

lemma tokenize_errstr: "tokenize ev conf line = Some (0, li) \<Longrightarrow> errstr li = None"
  by (drule tokenize_inv) (simp add: trace_inv_def init_log_item_def)

lemma tokenize_host: "tokenize ev conf line = Some (r, li) \<Longrightarrow> host li \<noteq> Some []"
  by (drule tokenize_inv) (simp add: trace_inv_def init_log_item_def)

lemma tokenize_status:
  "tokenize ev conf line = Some (0, li) \<Longrightarrow> \<not> no_strict_status conf \<Longrightarrow> status_ok li"
  by (drule tokenize_inv) (simp add: trace_inv_def init_log_item_def status_ok_def)

lemma parse_line_Some:
  assumes "parse_line ev conf line = Some (r, Some rec)"
  shows "\<exists>li. tokenize ev conf line = Some (0, li) \<and> r = 0 \<and> host li \<noteq> None
           \<and> date li \<noteq> None \<and> req li \<noteq> None
           \<and> rec = (if agent li = None then li\<lparr>agent := Some ''-''\<rparr> else li)"
  using assms
  by (auto simp: parse_line_def verify_missing_fields_def Let_def
      split: if_splits option.splits prod.splits)

lemma sample_tokenize: "tokenize sample_env sample_conf sample_line = Some (0, sample_item)"
  by code_simp

lemma sample_parse_line:
  "parse_line sample_env sample_conf sample_line = Some (0, Some (sample_item\<lparr>agent := Some ''-''\<rparr>))"
proof -
  have "\<not> valid_line sample_line" by code_simp
  then show ?thesis
    by (simp add: parse_line_def sample_tokenize verify_missing_fields_def sample_item_def
        init_log_item_def)
qed

section \<open>Required fields\<close>

text \<open>
  Claim C8: what the code does. When the tokenizer has returned 0 for a line that is not
  ignored, \<^verbatim>\<open>verify_missing_fields\<close> fails exactly when one of host, date and request is
  unset and writes into \<^verbatim>\<open>errstr\<close> the message naming the first of them that is
  missing, in this order. \<^verbatim>\<open>parse_line\<close> then returns 1 but stores no log item: the log
  item that holds the message is freed by \<^verbatim>\<open>cleanup_logitem\<close>, so the caller receives
  the same answer whichever field is missing, although the comment above
  \<^verbatim>\<open>parse_line\<close> promises the message in \<^verbatim>\<open>logitem->errstr\<close> and \<^verbatim>\<open>main\<close> reads
  it there. Otherwise \<^verbatim>\<open>parse_line\<close> returns 0 with the log item, whose user agent is
  \<^verbatim>\<open>-\<close> if none was set.
\<close>

theorem parse_line_missing_fields:
  assumes "tokenize ev conf line = Some (0, li)" and "\<not> valid_line line"
  shows "parse_line ev conf line =
           (if host li = None \<or> date li = None \<or> req li = None then Some (1, None)
            else Some (0, Some (if agent li = None then li\<lparr>agent := Some ''-''\<rparr> else li)))
         \<and> verify_missing_fields li =
           (if host li = None then (1, li\<lparr>errstr := Some ''IPv4/6 is required.''\<rparr>)
            else if date li = None then (1, li\<lparr>errstr := Some ''A valid date is required.''\<rparr>)
            else if req li = None then (1, li\<lparr>errstr := Some ''A request is required.''\<rparr>)
            else (0, li))"
  using assms tokenize_errstr [OF assms(1)]
  by (auto simp: parse_line_def verify_missing_fields_def Let_def)

theorem parse_line_missing_fields_witness:
  "tokenize sample_env (sample_conf\<lparr>log_format := ''%v''\<rparr>) ''abc''
     = Some (0, init_log_item\<lparr>vhost := Some ''abc''\<rparr>)
   \<and> \<not> valid_line ''abc''
   \<and> parse_line sample_env (sample_conf\<lparr>log_format := ''%v''\<rparr>) ''abc'' = Some (1, None)
   \<and> verify_missing_fields (init_log_item\<lparr>vhost := Some ''abc''\<rparr>)
       = (1, init_log_item\<lparr>vhost := Some ''abc'', errstr := Some ''IPv4/6 is required.''\<rparr>)
   \<and> tokenize sample_env (sample_conf\<lparr>log_format := ''%h''\<rparr>) ''114.5.1.4''
       = Some (0, init_log_item\<lparr>host := Some ''114.5.1.4'', type_ip := TYPE_IPV4\<rparr>)
   \<and> \<not> valid_line ''114.5.1.4''
   \<and> parse_line sample_env (sample_conf\<lparr>log_format := ''%h''\<rparr>) ''114.5.1.4'' = Some (1, None)
   \<and> verify_missing_fields (init_log_item\<lparr>host := Some ''114.5.1.4'', type_ip := TYPE_IPV4\<rparr>)
       = (1, init_log_item\<lparr>host := Some ''114.5.1.4'', type_ip := TYPE_IPV4,
                             errstr := Some ''A valid date is required.''\<rparr>)
   \<and> tokenize sample_env sample_conf sample_line = Some (0, sample_item)
   \<and> \<not> valid_line sample_line
   \<and> parse_line sample_env sample_conf sample_line
       = Some (0, Some (sample_item\<lparr>agent := Some ''-''\<rparr>))"
proof -
  have a1: "tokenize sample_env (sample_conf\<lparr>log_format := ''%v''\<rparr>) ''abc''
     = Some (0, init_log_item\<lparr>vhost := Some ''abc''\<rparr>)"
    by code_simp
  have a2: "\<not> valid_line ''abc''" by code_simp
  have d1: "tokenize sample_env (sample_conf\<lparr>log_format := ''%h''\<rparr>) ''114.5.1.4''
       = Some (0, init_log_item\<lparr>host := Some ''114.5.1.4'', type_ip := TYPE_IPV4\<rparr>)"
    by code_simp
  have d2: "\<not> valid_line ''114.5.1.4''" by code_simp
  have b1: "tokenize sample_env sample_conf sample_line = Some (0, sample_item)"
    by (rule sample_tokenize)
  have b2: "\<not> valid_line sample_line" by code_simp
  have f: "host (init_log_item\<lparr>vhost := Some ''abc''\<rparr>) = None"
    "host (init_log_item\<lparr>host := Some ''114.5.1.4'', type_ip := TYPE_IPV4\<rparr>) \<noteq> None"
    "date (init_log_item\<lparr>host := Some ''114.5.1.4'', type_ip := TYPE_IPV4\<rparr>) = None"
    "host sample_item \<noteq> None" "date sample_item \<noteq> None" "req sample_item \<noteq> None"
    "agent sample_item = None"
    by (simp_all add: init_log_item_def sample_item_def)
  from parse_line_missing_fields [OF a1 a2] f(1)
  have c1: "parse_line sample_env (sample_conf\<lparr>log_format := ''%v''\<rparr>) ''abc'' = Some (1, None)"
    and c2: "verify_missing_fields (init_log_item\<lparr>vhost := Some ''abc''\<rparr>)
       = (1, init_log_item\<lparr>vhost := Some ''abc'', errstr := Some ''IPv4/6 is required.''\<rparr>)"
    by simp_all
  from parse_line_missing_fields [OF d1 d2] f(2,3)
  have c4: "parse_line sample_env (sample_conf\<lparr>log_format := ''%h''\<rparr>) ''114.5.1.4'' = Some (1, None)"
    and c5: "verify_missing_fields (init_log_item\<lparr>host := Some ''114.5.1.4'', type_ip := TYPE_IPV4\<rparr>)
       = (1, init_log_item\<lparr>host := Some ''114.5.1.4'', type_ip := TYPE_IPV4,
                             errstr := Some ''A valid date is required.''\<rparr>)"
    by simp_all
  from parse_line_missing_fields [OF b1 b2] f(4-7)
  have c3: "parse_line sample_env sample_conf sample_line
       = Some (0, Some (sample_item\<lparr>agent := Some ''-''\<rparr>))"
    by simp
  from a1 a2 b1 b2 d1 d2 c1 c2 c3 c4 c5 show ?thesis by blast
qed

section \<open>Empty host tokens\<close>

lemma spec_h_empty_token:
  assumes "host logitem = None" and "host_token str end' = Some ([], rest)"
  shows "\<exists>li. spec_h ev conf logitem str p end' = Some (1, li, rest)
           \<and> errstr li = spec_err_msg ERR_SPEC_TOKN_INV (CHR ''h'') (Some [])
           \<and> host li = None"
  using assms
  by (auto simp: spec_h_def host_token_def Let_def tok_inv_def spec_err_def invalid_ipaddr_def
      split: option.splits prod.splits)

text \<open>
  Claim C9. Whether or not IP validation is disabled, a \<^verbatim>\<open>%h\<close> whose token is empty
  returns 1 with the message for a token that does not match \<^verbatim>\<open>%h\<close> and leaves the
  host unset; and the host of every log item \<^verbatim>\<open>parse_line\<close> stores, in either mode and
  also when \<^verbatim>\<open>~h\<close> set it, is set and not empty.
\<close>

theorem empty_host_token_rejected:
  "(host logitem = None \<and> host_token str end' = Some ([], rest) \<longrightarrow>
      (\<exists>li. parse_specifier ev conf logitem str (CHR ''h'' # ps) end' = Some (1, li, rest)
         \<and> errstr li = Some (''Token '' @ [CHR 0x27, CHR 0x27] @ '' doesn'' @ [CHR 0x27]
                              @ ''t match specifier '' @ [CHR 0x27] @ ''%h'' @ [CHR 0x27])
         \<and> host li = None))
   \<and> (parse_line ev conf line = Some (r, Some rec) \<longrightarrow> (\<exists>h. host rec = Some h \<and> h \<noteq> []))"
proof (intro conjI impI)
  assume "host logitem = None \<and> host_token str end' = Some ([], rest)"
  then show "\<exists>li. parse_specifier ev conf logitem str (CHR ''h'' # ps) end' = Some (1, li, rest)
         \<and> errstr li = Some (''Token '' @ [CHR 0x27, CHR 0x27] @ '' doesn'' @ [CHR 0x27]
                              @ ''t match specifier '' @ [CHR 0x27] @ ''%h'' @ [CHR 0x27])
         \<and> host li = None"
    using spec_h_empty_token [of logitem str end' rest ev conf "CHR ''h'' # ps"]
    by (simp add: parse_specifier_def spec_err_msg_def ERR_SPEC_TOKN_INV_def ERR_SPEC_TOKN_NUL_def
        sq_def)
next
  assume "parse_line ev conf line = Some (r, Some rec)"
  from parse_line_Some [OF this] obtain li where
    li: "tokenize ev conf line = Some (0, li)" "host li \<noteq> None"
      "rec = (if agent li = None then li\<lparr>agent := Some ''-''\<rparr> else li)"
    by blast
  from tokenize_host [OF li(1)] li(2) obtain h where "host li = Some h" "h \<noteq> []"
    by (cases "host li") auto
  with li(3) show "\<exists>h. host rec = Some h \<and> h \<noteq> []" by auto
qed

theorem empty_host_token_rejected_witness:
  "host init_log_item = None
   \<and> host_token '' rest'' '' '' = Some ([], '' rest'')
   \<and> (\<exists>li. parse_specifier sample_env (sample_conf\<lparr>no_ip_validation := True\<rparr>) init_log_item
               '' rest'' (CHR ''h'' # '' %v'') '' '' = Some (1, li, '' rest'')
          \<and> errstr li = Some (''Token '' @ [CHR 0x27, CHR 0x27] @ '' doesn'' @ [CHR 0x27]
                               @ ''t match specifier '' @ [CHR 0x27] @ ''%h'' @ [CHR 0x27])
          \<and> host li = None)
   \<and> parse_line sample_env sample_conf sample_line
       = Some (0, Some (sample_item\<lparr>agent := Some ''-''\<rparr>))
   \<and> (\<exists>h. host (sample_item\<lparr>agent := Some ''-''\<rparr>) = Some h \<and> h \<noteq> [])"
proof -
  have a: "host init_log_item = None \<and> host_token '' rest'' '' '' = Some ([], '' rest'')"
    by code_simp
  note t = empty_host_token_rejected [where logitem = init_log_item and str = "'' rest''"
      and end' = "'' ''" and rest = "'' rest''" and ev = sample_env
      and conf = "sample_conf\<lparr>no_ip_validation := True\<rparr>" and ps = "'' %v''"]
  note u = empty_host_token_rejected [where ev = sample_env and conf = sample_conf
      and line = sample_line and r = 0 and rec = "sample_item\<lparr>agent := Some ''-''\<rparr>"]
  from t u a sample_parse_line show ?thesis by blast
qed

section \<open>The status field\<close>

lemma spec_h_status: "spec_h ev conf li s p e = Some (r, li', s') \<Longrightarrow> status li' = status li"
  by (auto simp: spec_h_def Let_def tok_null_def tok_inv_def spec_err_def skip_token_def
      split: if_splits option.splits prod.splits)

lemma parse_specifier_status:
  assumes "parse_specifier ev conf li s p e = Some (0, li', s')"
  shows "status li' = status li
         \<or> (p \<noteq> [] \<and> hd p = CHR ''s'' \<and> status li < 0
            \<and> (\<not> no_strict_status conf \<longrightarrow> is_valid_http_status (status li')))"
proof (cases "p = [] \<or> (hd p \<noteq> CHR ''h'' \<and> hd p \<noteq> CHR ''s'')")
  case True
  from parse_specifier_frame [OF assms True] show ?thesis
    by (simp add: frame_def)
next
  case False
  then obtain c ps where p: "p = c # ps" and c: "c = CHR ''h'' \<or> c = CHR ''s''"
    by (cases p) auto
  from c show ?thesis
  proof
    assume "c = CHR ''h''"
    with assms p show ?thesis
      by (auto simp: parse_specifier_def dest: spec_h_status)
  next
    assume "c = CHR ''s''"
    with assms p have "spec_s conf li s p e = Some (0, li', s')"
      by (simp add: parse_specifier_def)
    from spec_s_step [OF this] p \<open>c = CHR ''s''\<close> show ?thesis
      by (auto simp: step_inv_def)
  qed
qed

lemma is_valid_http_status_range: "is_valid_http_status c \<Longrightarrow> 0 \<le> c \<and> c \<le> 599"
  by (simp add: is_valid_http_status_def)

lemma spec_s_store:
  assumes "spec_s conf li s p e = Some (0, li', s')" and "status li < 0"
  shows "\<exists>tkn. parse_string s e 1 = Some (tkn, s')
           \<and> tkn \<noteq> [] \<and> snd (strtol tkn) = (length tkn, False)
           \<and> li' = li\<lparr>status := status_of_token tkn\<rparr>
           \<and> (\<not> no_strict_status conf \<longrightarrow> is_valid_http_status (status_of_token tkn))"
  using assms
  by (auto simp: spec_s_def Let_def tok_null_def tok_inv_def spec_err_def conv_failed_def
        status_of_token_def ERR_SPEC_TOKN_NUL_def
      split: if_splits option.splits prod.splits)

lemma status_tokens_loop_special:
  assumes "c \<noteq> CHR ''%''" "\<not> (c = CHR ''~'' \<and> perc = 0)" "str \<noteq> []" "hd str \<noteq> CHR 0x0A"
    "tilde \<noteq> 0 \<and> c \<noteq> NUL"
    and "special_specifier ev logitem str (c # ps) = (r1, li1, str1, p1)"
  shows "status_tokens_loop ev conf logitem str perc tilde (c # ps) =
           (if r1 = 1 then [] else status_tokens_loop ev conf li1 str1 perc 0 (tl p1))"
  using assms by (subst status_tokens_loop.simps(2)) auto

lemma status_tokens_loop_spec:
  assumes "c \<noteq> CHR ''%''" "\<not> (c = CHR ''~'' \<and> perc = 0)" "str \<noteq> []" "hd str \<noteq> CHR 0x0A"
    "\<not> (tilde \<noteq> 0 \<and> c \<noteq> NUL)" "perc \<noteq> 0 \<and> c \<noteq> NUL"
    and "parse_specifier ev conf logitem str (c # ps) (get_delim (c # ps)) = Some (0, li1, str1)"
  shows "status_tokens_loop ev conf logitem str perc tilde (c # ps) =
           (if c = CHR ''s'' \<and> status logitem < 0
            then (case parse_string str (get_delim (c # ps)) 1 of
                    None \<Rightarrow> []
                  | Some (tkn, _) \<Rightarrow> [tkn])
            else [])
           @ status_tokens_loop ev conf li1 str1 0 tilde ps"
  using assms by (subst status_tokens_loop.simps(2)) auto

lemma status_tokens_loop_lit:
  assumes "c \<noteq> CHR ''%''" "\<not> (c = CHR ''~'' \<and> perc = 0)" "str \<noteq> []" "hd str \<noteq> CHR 0x0A"
    "\<not> (tilde \<noteq> 0 \<and> c \<noteq> NUL)" "\<not> (perc \<noteq> 0 \<and> c \<noteq> NUL)" "\<not> (perc \<noteq> 0 \<and> isspace c)"
  shows "status_tokens_loop ev conf logitem str perc tilde (c # ps) =
           status_tokens_loop ev conf logitem (tl str) perc tilde ps"
  using assms by (subst status_tokens_loop.simps(2)) auto

lemma status_tokens_loop_nl:
  assumes "c \<noteq> CHR ''%''" "\<not> (c = CHR ''~'' \<and> perc = 0)" "str \<noteq> []" "hd str = CHR 0x0A"
  shows "status_tokens_loop ev conf logitem str perc tilde (c # ps) = []"
  using assms by (subst status_tokens_loop.simps(2)) auto

lemma status_tokens_loop_perc:
  "status_tokens_loop ev conf logitem str perc tilde (CHR ''%'' # ps) =
     status_tokens_loop ev conf logitem str (perc + 1) tilde ps"
  by (subst status_tokens_loop.simps(2)) simp

lemma status_tokens_loop_tilde:
  assumes "c \<noteq> CHR ''%''" "c = CHR ''~'' \<and> perc = 0"
  shows "status_tokens_loop ev conf logitem str perc tilde (c # ps) =
           status_tokens_loop ev conf logitem str perc (tilde + 1) ps"
  using assms by (subst status_tokens_loop.simps(2)) auto

lemma status_tokens_loop_eol:
  assumes "c \<noteq> CHR ''%''" "\<not> (c = CHR ''~'' \<and> perc = 0)"
  shows "status_tokens_loop ev conf logitem [] perc tilde (c # ps) = []"
  using assms by (subst status_tokens_loop.simps(2)) auto

lemma status_tokens_loop_space:
  assumes "c \<noteq> CHR ''%''" "\<not> (c = CHR ''~'' \<and> perc = 0)" "str \<noteq> []" "hd str \<noteq> CHR 0x0A"
    "\<not> (tilde \<noteq> 0 \<and> c \<noteq> NUL)" "\<not> (perc \<noteq> 0 \<and> c \<noteq> NUL)" "perc \<noteq> 0 \<and> isspace c"
  shows "status_tokens_loop ev conf logitem str perc tilde (c # ps) = []"
  using assms by (subst status_tokens_loop.simps(2)) auto

lemma status_tokens_loop_fail:
  assumes "c \<noteq> CHR ''%''" "\<not> (c = CHR ''~'' \<and> perc = 0)" "str \<noteq> []" "hd str \<noteq> CHR 0x0A"
    "\<not> (tilde \<noteq> 0 \<and> c \<noteq> NUL)" "perc \<noteq> 0 \<and> c \<noteq> NUL"
    and "parse_specifier ev conf logitem str (c # ps) (get_delim (c # ps)) = None
         \<or> (\<exists>ret li1 str1. parse_specifier ev conf logitem str (c # ps) (get_delim (c # ps))
               = Some (ret, li1, str1) \<and> ret \<noteq> 0)"
  shows "status_tokens_loop ev conf logitem str perc tilde (c # ps) = []"
  using assms by (subst status_tokens_loop.simps(2)) auto

lemma status_after_Cons:
  "status_after s0 (t # ts) = status_after (status_of_token t) ts"
  by (simp add: status_after_def)

lemma parse_specifier_tokens:
  assumes ps: "parse_specifier ev conf logitem str (c # ps) e = Some (0, li1, str1)"
  shows "status_after (status logitem)
           ((if c = CHR ''s'' \<and> status logitem < 0
             then (case parse_string str e 1 of None \<Rightarrow> [] | Some (tkn, _) \<Rightarrow> [tkn])
             else []) @ ts)
         = status_after (status li1) ts
         \<and> (\<not> no_strict_status conf \<longrightarrow>
              (\<forall>t \<in> set (if c = CHR ''s'' \<and> status logitem < 0
                           then (case parse_string str e 1 of None \<Rightarrow> [] | Some (tkn, _) \<Rightarrow> [tkn])
                           else []). is_valid_http_status (status_of_token t)))"
proof (cases "c = CHR ''s'' \<and> status logitem < 0")
  case True
  with ps have sp: "spec_s conf logitem str (c # ps) e = Some (0, li1, str1)"
    by (simp add: parse_specifier_def)
  from True have neg: "status logitem < 0" by simp
  from spec_s_store [OF sp neg] obtain tkn where
    t: "parse_string str e 1 = Some (tkn, str1)" "li1 = logitem\<lparr>status := status_of_token tkn\<rparr>"
    "\<not> no_strict_status conf \<longrightarrow> is_valid_http_status (status_of_token tkn)"
    by blast
  from t(2) have "status li1 = status_of_token tkn" by simp
  with True t(1,3) show ?thesis
    by (simp add: status_after_Cons)
next
  case False
  from parse_specifier_status [OF ps] False have "status li1 = status logitem"
    by auto
  then show ?thesis using False by (cases "c = CHR ''s''") simp_all
qed

lemma status_tokens_loop_status:
  "parse_format_loop ev conf li str perc tilde p = Some (0, li') \<Longrightarrow>
     status li' = status_after (status li) (status_tokens_loop ev conf li str perc tilde p)"
proof (induction ev conf li str perc tilde p arbitrary: li' rule: parse_format_loop.induct)
  case (1 ev conf logitem str perc tilde)
  then show ?case by (simp add: status_after_def)
next
  case (2 ev conf logitem str perc tilde c ps)
  note prems = "2.prems"
  consider (perc) "c = CHR ''%''"
    | (tilde) "c \<noteq> CHR ''%''" "c = CHR ''~'' \<and> perc = 0"
    | (eol) "c \<noteq> CHR ''%''" "\<not> (c = CHR ''~'' \<and> perc = 0)" "str = []"
    | (nl) "c \<noteq> CHR ''%''" "\<not> (c = CHR ''~'' \<and> perc = 0)" "str \<noteq> []" "hd str = CHR 0x0A"
    | (special) "c \<noteq> CHR ''%''" "\<not> (c = CHR ''~'' \<and> perc = 0)" "str \<noteq> []" "hd str \<noteq> CHR 0x0A"
        "tilde \<noteq> 0 \<and> c \<noteq> NUL"
    | (spec) "c \<noteq> CHR ''%''" "\<not> (c = CHR ''~'' \<and> perc = 0)" "str \<noteq> []" "hd str \<noteq> CHR 0x0A"
        "\<not> (tilde \<noteq> 0 \<and> c \<noteq> NUL)" "perc \<noteq> 0 \<and> c \<noteq> NUL"
    | (space) "c \<noteq> CHR ''%''" "\<not> (c = CHR ''~'' \<and> perc = 0)" "str \<noteq> []" "hd str \<noteq> CHR 0x0A"
        "\<not> (tilde \<noteq> 0 \<and> c \<noteq> NUL)" "\<not> (perc \<noteq> 0 \<and> c \<noteq> NUL)" "perc \<noteq> 0 \<and> isspace c"
    | (lit) "c \<noteq> CHR ''%''" "\<not> (c = CHR ''~'' \<and> perc = 0)" "str \<noteq> []" "hd str \<noteq> CHR 0x0A"
        "\<not> (tilde \<noteq> 0 \<and> c \<noteq> NUL)" "\<not> (perc \<noteq> 0 \<and> c \<noteq> NUL)" "\<not> (perc \<noteq> 0 \<and> isspace c)"
    by blast
  then show ?case
  proof cases
    case perc
    with prems have "parse_format_loop ev conf logitem str (perc + 1) tilde ps = Some (0, li')"
      by (subst (asm) parse_format_loop.simps) (simp del: parse_format_loop.simps)
    from "2.IH"(1) [OF perc this] perc show ?thesis
      by (simp add: status_tokens_loop_perc)
  next
    case tilde
    with prems have "parse_format_loop ev conf logitem str perc (tilde + 1) ps = Some (0, li')"
      by (subst (asm) parse_format_loop.simps) (simp del: parse_format_loop.simps)
    from "2.IH"(2) [OF tilde this] show ?thesis
      by (simp add: status_tokens_loop_tilde [OF tilde])
  next
    case eol
    from prems [unfolded eol(3) parse_format_loop_eol [OF eol(1,2)]]
    show ?thesis
      by (simp add: spec_err_def ERR_SPEC_LINE_INV_def)
  next
    case nl
    from prems [unfolded parse_format_loop_nl [OF nl]] have "li' = logitem" by simp
    then show ?thesis
      by (simp add: status_tokens_loop_nl [OF nl] status_after_def)
  next
    case special
    obtain r1 li1 str1 p1 where sp: "special_specifier ev logitem str (c # ps) = (r1, li1, str1, p1)"
      by (cases "special_specifier ev logitem str (c # ps)") auto
    note st = special_specifier_step [OF sp]
    note eq = prems [unfolded parse_format_loop_special [OF special sp]]
    then have r1: "r1 \<noteq> 1"
      by (auto split: if_splits)
    with eq have "parse_format_loop ev conf li1 str1 perc 0 (tl p1) = Some (0, li')"
      by simp
    from "2.IH"(3) [OF special(1,2,3,4,5) sp [symmetric] refl refl r1 this] st r1
    show ?thesis
      by (simp add: status_tokens_loop_special [OF special sp])
  next
    case spec
    note eq = prems [unfolded parse_format_loop_spec [OF spec]]
    then obtain ret li1 str1 where
      ps: "parse_specifier ev conf logitem str (c # ps) (get_delim (c # ps)) = Some (ret, li1, str1)"
      by (cases "parse_specifier ev conf logitem str (c # ps) (get_delim (c # ps))") auto
    with eq have ret: "ret = 0"
      by (auto split: if_splits)
    with eq ps have "parse_format_loop ev conf li1 str1 0 tilde ps = Some (0, li')"
      by simp
    from "2.IH"(4) [OF spec(1,2,3,4,5,6) ps refl refl _ this] ret
    have ih: "status li' = status_after (status li1) (status_tokens_loop ev conf li1 str1 0 tilde ps)"
      by simp
    from ps ret have ps0: "parse_specifier ev conf logitem str (c # ps) (get_delim (c # ps))
        = Some (0, li1, str1)" by simp
    from parse_specifier_tokens [OF ps0, of "status_tokens_loop ev conf li1 str1 0 tilde ps"] ih
    show ?thesis
      by (simp only: status_tokens_loop_spec [OF spec ps0])
  next
    case space
    from prems [unfolded parse_format_loop_space [OF space]] show ?thesis
      by simp
  next
    case lit
    from prems [unfolded parse_format_loop_lit [OF lit]]
    have "parse_format_loop ev conf logitem (tl str) perc tilde ps = Some (0, li')" .
    from "2.IH"(5) [OF lit this] show ?thesis
      by (simp add: status_tokens_loop_lit [OF lit])
  qed
qed

lemma status_tokens_loop_valid:
  "\<not> no_strict_status conf \<Longrightarrow>
     \<forall>t \<in> set (status_tokens_loop ev conf li str perc tilde p). is_valid_http_status (status_of_token t)"
proof (induction ev conf li str perc tilde p rule: parse_format_loop.induct)
  case (1 ev conf logitem str perc tilde)
  then show ?case by simp
next
  case (2 ev conf logitem str perc tilde c ps)
  note strict = "2.prems"
  consider (perc) "c = CHR ''%''"
    | (tilde) "c \<noteq> CHR ''%''" "c = CHR ''~'' \<and> perc = 0"
    | (eol) "c \<noteq> CHR ''%''" "\<not> (c = CHR ''~'' \<and> perc = 0)" "str = []"
    | (nl) "c \<noteq> CHR ''%''" "\<not> (c = CHR ''~'' \<and> perc = 0)" "str \<noteq> []" "hd str = CHR 0x0A"
    | (special) "c \<noteq> CHR ''%''" "\<not> (c = CHR ''~'' \<and> perc = 0)" "str \<noteq> []" "hd str \<noteq> CHR 0x0A"
        "tilde \<noteq> 0 \<and> c \<noteq> NUL"
    | (spec) "c \<noteq> CHR ''%''" "\<not> (c = CHR ''~'' \<and> perc = 0)" "str \<noteq> []" "hd str \<noteq> CHR 0x0A"
        "\<not> (tilde \<noteq> 0 \<and> c \<noteq> NUL)" "perc \<noteq> 0 \<and> c \<noteq> NUL"
    | (space) "c \<noteq> CHR ''%''" "\<not> (c = CHR ''~'' \<and> perc = 0)" "str \<noteq> []" "hd str \<noteq> CHR 0x0A"
        "\<not> (tilde \<noteq> 0 \<and> c \<noteq> NUL)" "\<not> (perc \<noteq> 0 \<and> c \<noteq> NUL)" "perc \<noteq> 0 \<and> isspace c"
    | (lit) "c \<noteq> CHR ''%''" "\<not> (c = CHR ''~'' \<and> perc = 0)" "str \<noteq> []" "hd str \<noteq> CHR 0x0A"
        "\<not> (tilde \<noteq> 0 \<and> c \<noteq> NUL)" "\<not> (perc \<noteq> 0 \<and> c \<noteq> NUL)" "\<not> (perc \<noteq> 0 \<and> isspace c)"
    by blast
  then show ?case
  proof cases
    case perc
    from "2.IH"(1) [OF perc strict] perc show ?thesis
      by (simp add: status_tokens_loop_perc)
  next
    case tilde
    from "2.IH"(2) [OF tilde strict] show ?thesis
      by (simp add: status_tokens_loop_tilde [OF tilde])
  next
    case eol
    then show ?thesis
      by (simp add: status_tokens_loop_eol)
  next
    case nl
    show ?thesis
      by (simp add: status_tokens_loop_nl [OF nl])
  next
    case special
    obtain r1 li1 str1 p1 where sp: "special_specifier ev logitem str (c # ps) = (r1, li1, str1, p1)"
      by (cases "special_specifier ev logitem str (c # ps)") auto
    show ?thesis
    proof (cases "r1 = 1")
      case True
      then show ?thesis by (simp add: status_tokens_loop_special [OF special sp])
    next
      case False
      from "2.IH"(3) [OF special(1,2,3,4,5) sp [symmetric] refl refl False strict] False
      show ?thesis
        by (simp add: status_tokens_loop_special [OF special sp])
    qed
  next
    case spec
    show ?thesis
    proof (cases "parse_specifier ev conf logitem str (c # ps) (get_delim (c # ps))")
      case None
      then show ?thesis
        by (simp add: status_tokens_loop_fail [OF spec])
    next
      case (Some x)
      then obtain ret li1 str1 where
        ps: "parse_specifier ev conf logitem str (c # ps) (get_delim (c # ps)) = Some (ret, li1, str1)"
        by (cases x) auto
      show ?thesis
      proof (cases "ret = 0")
        case False
        with ps show ?thesis
          by (simp add: status_tokens_loop_fail [OF spec])
      next
        case True
        with ps have ps0: "parse_specifier ev conf logitem str (c # ps) (get_delim (c # ps))
            = Some (0, li1, str1)" by simp
        from "2.IH"(4) [OF spec(1,2,3,4,5,6) ps refl refl _ strict] True
        have "\<forall>t \<in> set (status_tokens_loop ev conf li1 str1 0 tilde ps).
                is_valid_http_status (status_of_token t)"
          by simp
        with parse_specifier_tokens [OF ps0, of "[]"] strict
        show ?thesis
          by (simp only: status_tokens_loop_spec [OF spec ps0] set_append) blast
      qed
    qed
  next
    case space
    show ?thesis
      by (simp add: status_tokens_loop_space [OF space])
  next
    case lit
    from "2.IH"(5) [OF lit strict] show ?thesis
      by (simp add: status_tokens_loop_lit [OF lit])
  qed
qed

lemma status_after_append:
  "status_after s0 (ts @ us) = status_after (status_after s0 ts) us"
  by (simp add: status_after_def)

lemma status_tokens_format_status:
  "parse_format ev conf li str lfmt = Some (0, li') \<Longrightarrow>
     status li' = status_after (status li) (status_tokens_format ev conf li str lfmt)"
  by (auto simp: parse_format_def status_tokens_format_def split: if_splits
      dest: status_tokens_loop_status)

lemma status_tokens_format_valid:
  "\<not> no_strict_status conf \<Longrightarrow>
     \<forall>t \<in> set (status_tokens_format ev conf li str lfmt). is_valid_http_status (status_of_token t)"
  using status_tokens_loop_valid [of conf ev li str 0 0 lfmt]
  by (simp add: status_tokens_format_def)

lemma status_tokens_json_status:
  "parse_json_string ev conf li scalars final = Some (0, li') \<Longrightarrow>
     status li' = status_after (status li) (status_tokens_json ev conf li scalars)"
proof (induction scalars arbitrary: li)
  case Nil
  then show ?case by (simp add: status_after_def)
next
  case (Cons kv scalars)
  obtain key val where kv: "kv = (key, val)" by (cases kv)
  from Cons.prems kv obtain ret li1 where
    sp: "parse_json_specifier ev conf li key val = Some (ret, li1)"
    by (auto split: option.splits)
  with Cons.prems kv have ret: "ret = 0"
    and rest: "parse_json_string ev conf li1 scalars final = Some (0, li')"
    by (auto split: if_splits)
  let ?ts = "if length val = 0 then []
             else case json_logfmt ev key of
               None \<Rightarrow> []
             | Some spec \<Rightarrow> status_tokens_format ev conf li val spec"
  from sp ret have "status li1 = status_after (status li) ?ts"
    by (auto simp: parse_json_specifier_def status_after_def split: if_splits option.splits
        dest: status_tokens_format_status)
  with Cons.IH [OF rest] sp ret kv show ?case
    by (simp add: status_after_append)
qed

lemma status_tokens_json_valid:
  "\<not> no_strict_status conf \<Longrightarrow>
     \<forall>t \<in> set (status_tokens_json ev conf li scalars). is_valid_http_status (status_of_token t)"
proof (induction scalars arbitrary: li)
  case Nil
  then show ?case by simp
next
  case (Cons kv scalars)
  obtain key val where kv: "kv = (key, val)" by (cases kv)
  from Cons.IH [OF Cons.prems] status_tokens_format_valid [OF Cons.prems, of ev li val] kv
  show ?case
    by (auto split: option.splits if_splits)
qed

lemma status_tokens_status:
  "tokenize ev conf line = Some (0, li) \<Longrightarrow>
     status li = status_after (- 1) (status_tokens ev conf line)"
proof -
  assume t: "tokenize ev conf line = Some (0, li)"
  have i: "status init_log_item = - 1" by (simp add: init_log_item_def)
  show ?thesis
  proof (cases "is_json_log_format conf")
    case True
    with t have "parse_json_string ev conf init_log_item (fst (json_scalars ev line))
                   (snd (json_scalars ev line)) = Some (0, li)"
      by (simp add: tokenize_def parse_json_format_def split: prod.splits)
    from status_tokens_json_status [OF this] True i show ?thesis
      by (simp add: status_tokens_def)
  next
    case False
    with t have "parse_format ev conf init_log_item line (log_format conf) = Some (0, li)"
      by (simp add: tokenize_def)
    from status_tokens_format_status [OF this] False i show ?thesis
      by (simp add: status_tokens_def)
  qed
qed

lemma status_tokens_valid:
  "\<not> no_strict_status conf \<Longrightarrow>
     \<forall>t \<in> set (status_tokens ev conf line). is_valid_http_status (status_of_token t)"
  using status_tokens_json_valid [of conf ev init_log_item "fst (json_scalars ev line)"]
    status_tokens_format_valid [of conf ev init_log_item line "log_format conf"]
  by (simp add: status_tokens_def)

lemma is_valid_http_status_not_unset: "is_valid_http_status c \<Longrightarrow> c \<noteq> - 1"
  by (simp add: is_valid_http_status_def)

text \<open>
  Claim C1, as amended. The status of a log item \<^verbatim>\<open>parse_line\<close> stores is -1 if no
  \<^verbatim>\<open>%s\<close> parsed a token with success in the walk over the line, and else the 32-bit
  integer that the last token so parsed stands for; this holds for both settings of
  \<^verbatim>\<open>no_strict_status\<close>, for template and JSON lines. Under strict status checking every
  token so parsed stands for a registered code between 0 and 599, so that the status is -1
  exactly when no \<^verbatim>\<open>%s\<close> was parsed with success, and a registered code otherwise. A
  handler of \<^verbatim>\<open>%s\<close> that finds a negative status and returns 0 has extracted a token
  that is a whole decimal numeral in the range of \<^verbatim>\<open>long\<close> and stored its low 32 bits,
  tested against the table of codes only under strict checking. The status starts at -1; no
  other handler that returns 0 changes it, and the special specifier never does.
\<close>

theorem status_range_strict:
  "(parse_line ev conf line = Some (r, Some rec) \<longrightarrow>
      status rec = (if status_tokens ev conf line = [] then - 1
                    else int_of_long (fst (strtol (last (status_tokens ev conf line)))))
      \<and> (\<not> no_strict_status conf \<longrightarrow>
            (status rec = - 1 \<longleftrightarrow> status_tokens ev conf line = [])
            \<and> (status rec = - 1
               \<or> (0 \<le> status rec \<and> status rec \<le> 599 \<and> is_valid_http_status (status rec)))))
   \<and> (parse_specifier ev conf logitem str (CHR ''s'' # ps) end' = Some (0, li, str')
        \<and> status logitem < 0 \<longrightarrow>
        (\<exists>tkn. parse_string str end' 1 = Some (tkn, str')
           \<and> tkn \<noteq> [] \<and> snd (strtol tkn) = (length tkn, False)
           \<and> li = logitem\<lparr>status := int_of_long (fst (strtol tkn))\<rparr>
           \<and> (\<not> no_strict_status conf \<longrightarrow>
                 is_valid_http_status (int_of_long (fst (strtol tkn))))))
   \<and> (parse_specifier ev conf logitem str p end' = Some (0, li, str') \<longrightarrow>
        status li = status logitem
        \<or> (p \<noteq> [] \<and> hd p = CHR ''s'' \<and> status logitem < 0
           \<and> (\<not> no_strict_status conf \<longrightarrow> is_valid_http_status (status li))))
   \<and> (special_specifier ev logitem str p = (r1, li1, str1, p1) \<longrightarrow> status li1 = status logitem)
   \<and> status init_log_item = - 1"
proof (intro conjI impI)
  assume a: "parse_line ev conf line = Some (r, Some rec)"
  from parse_line_Some [OF this] obtain l where
    l: "tokenize ev conf line = Some (0, l)"
      "rec = (if agent l = None then l\<lparr>agent := Some ''-''\<rparr> else l)"
    by blast
  from l(2) have s: "status rec = status l" by simp
  from status_tokens_status [OF l(1)] s
  show v: "status rec = (if status_tokens ev conf line = [] then - 1
                    else int_of_long (fst (strtol (last (status_tokens ev conf line)))))"
    by (simp add: status_after_def status_of_token_def)
  assume strict: "\<not> no_strict_status conf"
  have ok: "status_tokens ev conf line \<noteq> [] \<Longrightarrow> is_valid_http_status (status rec)"
  proof -
    assume n: "status_tokens ev conf line \<noteq> []"
    then have "last (status_tokens ev conf line) \<in> set (status_tokens ev conf line)"
      by simp
    with status_tokens_valid [OF strict, of ev line]
    have "is_valid_http_status (status_of_token (last (status_tokens ev conf line)))"
      by blast
    with v n show ?thesis by (simp add: status_of_token_def)
  qed
  from ok v show "(status rec = - 1) = (status_tokens ev conf line = [])"
    by (auto dest: is_valid_http_status_not_unset)
  from ok v show "status rec = - 1
      \<or> (0 \<le> status rec \<and> status rec \<le> 599 \<and> is_valid_http_status (status rec))"
    by (cases "status_tokens ev conf line = []") (auto dest: is_valid_http_status_range)
next
  assume a: "parse_specifier ev conf logitem str (CHR ''s'' # ps) end' = Some (0, li, str')
        \<and> status logitem < 0"
  then have "spec_s conf logitem str (CHR ''s'' # ps) end' = Some (0, li, str')"
    by (simp add: parse_specifier_def)
  from spec_s_store [OF this] a
  show "\<exists>tkn. parse_string str end' 1 = Some (tkn, str')
           \<and> tkn \<noteq> [] \<and> snd (strtol tkn) = (length tkn, False)
           \<and> li = logitem\<lparr>status := int_of_long (fst (strtol tkn))\<rparr>
           \<and> (\<not> no_strict_status conf \<longrightarrow>
                 is_valid_http_status (int_of_long (fst (strtol tkn))))"
    by (simp add: status_of_token_def)
next
  assume "parse_specifier ev conf logitem str p end' = Some (0, li, str')"
  from parse_specifier_status [OF this]
  show "status li = status logitem
        \<or> (p \<noteq> [] \<and> hd p = CHR ''s'' \<and> status logitem < 0
           \<and> (\<not> no_strict_status conf \<longrightarrow> is_valid_http_status (status li)))" .
next
  assume "special_specifier ev logitem str p = (r1, li1, str1, p1)"
  from special_specifier_step [OF this] show "status li1 = status logitem" by simp
next
  show "status init_log_item = - 1" by (simp add: init_log_item_def)
qed

theorem status_range_strict_witness:
  "\<not> no_strict_status sample_conf
   \<and> parse_line sample_env sample_conf sample_line
       = Some (0, Some (sample_item\<lparr>agent := Some ''-''\<rparr>))
   \<and> status_tokens sample_env sample_conf sample_line = [''200'']
   \<and> status (sample_item\<lparr>agent := Some ''-''\<rparr>) = int_of_long (fst (strtol ''200''))
   \<and> status (sample_item\<lparr>agent := Some ''-''\<rparr>) = 200
   \<and> is_valid_http_status 200
   \<and> parse_specifier sample_env sample_conf init_log_item ''429 568'' ''s %b'' '' ''
       = Some (0, init_log_item\<lparr>status := 429\<rparr>, '' 568'')
   \<and> hd ''s %b'' = CHR ''s'' \<and> status init_log_item < 0 \<and> is_valid_http_status 429
   \<and> (\<exists>tkn. parse_string ''429 568'' '' '' 1 = Some (tkn, '' 568'')
         \<and> init_log_item\<lparr>status := 429\<rparr>
             = init_log_item\<lparr>status := int_of_long (fst (strtol tkn))\<rparr>)
   \<and> special_specifier sample_env init_log_item ''10.0.0.1, 10.0.0.2'' ''h{, }''
       = (0, init_log_item\<lparr>host := Some ''10.0.0.1'', type_ip := TYPE_IPV4\<rparr>,
          ''10.0.0.1, 10.0.0.2'', [])
   \<and> status (init_log_item\<lparr>host := Some ''10.0.0.1'', type_ip := TYPE_IPV4\<rparr>) = - 1"
proof -
  have a: "\<not> no_strict_status sample_conf" by (simp add: sample_conf_def)
  have b: "parse_specifier sample_env sample_conf init_log_item ''429 568'' ''s %b'' '' ''
       = Some (0, init_log_item\<lparr>status := 429\<rparr>, '' 568'')"
    by code_simp
  have c: "special_specifier sample_env init_log_item ''10.0.0.1, 10.0.0.2'' ''h{, }''
       = (0, init_log_item\<lparr>host := Some ''10.0.0.1'', type_ip := TYPE_IPV4\<rparr>,
          ''10.0.0.1, 10.0.0.2'', [])"
    by code_simp
  have d: "status (sample_item\<lparr>agent := Some ''-''\<rparr>) = 200" "hd ''s %b'' = CHR ''s''"
    "status (init_log_item\<lparr>status := 429\<rparr>) = 429" "status init_log_item < 0"
    by (simp_all add: sample_item_def init_log_item_def)
  have k: "status_tokens sample_env sample_conf sample_line = [''200'']"
    by code_simp
  note t = status_range_strict [where conf = sample_conf and ev = sample_env and line = sample_line
      and r = 0 and rec = "sample_item\<lparr>agent := Some ''-''\<rparr>" and logitem = init_log_item
      and str = "''429 568''" and p = "''s %b''" and ps = "'' %b''" and end' = "'' ''"
      and li = "init_log_item\<lparr>status := 429\<rparr>" and str' = "'' 568''"]
  note u = status_range_strict [where ev = sample_env and logitem = init_log_item
      and str = "''10.0.0.1, 10.0.0.2''" and p = "''h{, }''" and ?r1.0 = 0
      and ?li1.0 = "init_log_item\<lparr>host := Some ''10.0.0.1'', type_ip := TYPE_IPV4\<rparr>"
      and ?str1.0 = "''10.0.0.1, 10.0.0.2''" and ?p1.0 = "[]"]
  note t1 = t [THEN conjunct1, rule_format, OF sample_parse_line]
  note t2 = t [THEN conjunct2, THEN conjunct1, rule_format, OF conjI, OF b d(4)]
  note t3 = t [THEN conjunct2, THEN conjunct2, THEN conjunct1, rule_format, OF b]
  note u4 = u [THEN conjunct2, THEN conjunct2, THEN conjunct2, THEN conjunct1, rule_format, OF c]
  from t1 [THEN conjunct1] k
  have e0: "status (sample_item\<lparr>agent := Some ''-''\<rparr>) = int_of_long (fst (strtol ''200''))"
    by simp
  from t1 [THEN conjunct2, rule_format, OF a, THEN conjunct2] d(1)
  have e1: "is_valid_http_status 200" by simp
  from t3 d(3,4) a have e2: "is_valid_http_status 429"
    by simp
  from t2 obtain tkn where "parse_string ''429 568'' '' '' 1 = Some (tkn, '' 568'')"
    "init_log_item\<lparr>status := 429\<rparr> = init_log_item\<lparr>status := int_of_long (fst (strtol tkn))\<rparr>"
    by blast
  then have e4: "\<exists>tkn. parse_string ''429 568'' '' '' 1 = Some (tkn, '' 568'')
         \<and> init_log_item\<lparr>status := 429\<rparr>
             = init_log_item\<lparr>status := int_of_long (fst (strtol tkn))\<rparr>"
    by blast
  from u4 have e3: "status (init_log_item\<lparr>host := Some ''10.0.0.1'', type_ip := TYPE_IPV4\<rparr>) = - 1"
    by (simp add: init_log_item_def)
  from a sample_parse_line b c d k e0 e1 e2 e3 e4 show ?thesis by blast
qed

text \<open>
  Claim C1 as stated fails for the configurations with \<^verbatim>\<open>no_strict_status\<close>: the test
  on the code is skipped, so the token 700 is stored as status 700 in the log item
  returned, and the token -1 is parsed with success and leaves the status at -1.
\<close>

theorem status_no_strict_counterexample:
  "map_option (\<lambda>(r, rec). (r, map_option status rec))
     (parse_line sample_env (sample_conf\<lparr>no_strict_status := True\<rparr>)
        ''114.5.1.4 - - [11/Jun/2023:01:23:45 +0800] /index.html 700 568'')
     = Some (0, Some 700)
   \<and> parse_format sample_env (sample_conf\<lparr>no_strict_status := True\<rparr>) init_log_item ''700'' ''%s''
       = Some (0, init_log_item\<lparr>status := 700\<rparr>)
   \<and> parse_format sample_env (sample_conf\<lparr>no_strict_status := True\<rparr>) init_log_item ''-1'' ''%s''
       = Some (0, init_log_item\<lparr>status := - 1\<rparr>)"
  by code_simp

section \<open>Empty values in a JSON line\<close>

lemma parse_json_string_skip:
  "parse_json_string ev conf logitem (pre @ (key, []) # post) final
     = parse_json_string ev conf logitem (pre @ post) final"
proof (induction pre arbitrary: logitem)
  case Nil
  show ?case by (simp add: parse_json_specifier_def)
next
  case (Cons kv pre)
  then show ?case
    by (cases kv) (simp split: option.splits prod.splits)
qed

text \<open>
  Claim C10. In JSON mode the callback returns 0 for an empty value without looking up
  the key or touching the log item, so a line gives the same result, error or log item,
  as the line without that scalar: an empty value raises no token error and can only show
  as a missing field.
\<close>

theorem empty_json_value_skipped:
  "parse_json_specifier ev conf logitem key [] = Some (0, logitem)
   \<and> parse_json_string ev conf logitem (pre @ (key, []) # post) final
       = parse_json_string ev conf logitem (pre @ post) final"
  by (simp add: parse_json_string_skip) (simp add: parse_json_specifier_def)

theorem empty_json_value_skipped_witness:
  "parse_json_specifier sample_env sample_conf init_log_item ''request.method'' []
     = Some (0, init_log_item)
   \<and> parse_json_string sample_env sample_conf init_log_item
        ([(''status'', ''200'')] @ (''request.method'', []) # [(''request.method'', ''get'')]) 0
       = parse_json_string sample_env sample_conf init_log_item
           ([(''status'', ''200'')] @ [(''request.method'', ''get'')]) 0
   \<and> parse_json_string sample_env sample_conf init_log_item
        ([(''status'', ''200'')] @ [(''request.method'', ''get'')]) 0
       = Some (0, init_log_item\<lparr>meth := Some ''GET'', status := 200\<rparr>)"
proof -
  have v: "parse_json_string sample_env sample_conf init_log_item
        ([(''status'', ''200'')] @ [(''request.method'', ''get'')]) 0
       = Some (0, init_log_item\<lparr>meth := Some ''GET'', status := 200\<rparr>)"
    by code_simp
  from empty_json_value_skipped [of sample_env sample_conf init_log_item "''request.method''"
      "[(''status'', ''200'')]" "[(''request.method'', ''get'')]" 0] v
  show ?thesis by blast
qed

end
